theory Spec2Isabelle
  imports Complex_Main "HOL-Library.Sublist"
begin

section \<open>Data model\<close>

text \<open>
  The repository holds the dashboard card twice: \<^verbatim>\<open>src/unnamed/part_000\<close>
  (\<^verbatim>\<open>CARD_VERSION = '1.0.2'\<close>) and \<^verbatim>\<open>src/dist/glassmorphism-dashboard.js\<close>
  (\<^verbatim>\<open>CARD_VERSION = '1.0.5'\<close>). The methods modelled here are the same text in both
  files, except \<^verbatim>\<open>getDefaultRooms\<close> (three rooms with icons against five rooms without)
  and the room literal of \<^verbatim>\<open>addRoom\<close> (with and without \<^verbatim>\<open>icon\<close>). Those two take
  the file as a parameter.
\<close>

datatype build = Part_000 | Dist

text \<open>
  The five bucket names. The callers pass \<^verbatim>\<open>category\<close> from the \<^verbatim>\<open>data-category\<close>
  attributes that \<^verbatim>\<open>renderSection\<close> writes, which are these five strings.
\<close>

datatype category = Lights | Climate | Media | Sensors | Switches

text \<open>
  A room object. A property that an object may lack is an option: \<^verbatim>\<open>icon\<close> is absent
  in the rooms of the dist file, and the methods test \<^verbatim>\<open>room[category]\<close> for presence
  before they use it. Strings are lists of 8-bit characters, read as the code units
  0..255 of a JavaScript string.
\<close>

record room =
  room_id :: string
  name :: string
  icon :: "string option"
  lights :: "string list option"
  climate :: "string list option"
  media :: "string list option"
  sensors :: "string list option"
  switches :: "string list option"

text \<open>\<^verbatim>\<open>room[category]\<close> read and written.\<close>

fun room_get :: "category \<Rightarrow> room \<Rightarrow> string list option" where
  "room_get Lights r = lights r"
| "room_get Climate r = climate r"
| "room_get Media r = media r"
| "room_get Sensors r = sensors r"
| "room_get Switches r = switches r"

fun room_set :: "category \<Rightarrow> string list \<Rightarrow> room \<Rightarrow> room" where
  "room_set Lights b r = r\<lparr>lights := Some b\<rparr>"
| "room_set Climate b r = r\<lparr>climate := Some b\<rparr>"
| "room_set Media b r = r\<lparr>media := Some b\<rparr>"
| "room_set Sensors b r = r\<lparr>sensors := Some b\<rparr>"
| "room_set Switches b r = r\<lparr>switches := Some b\<rparr>"

datatype error = SecurityError | QuotaExceededError | SyntaxError | TypeError

subsection \<open>Durable storage\<close>

text \<open>
  \<^verbatim>\<open>localStorage\<close> is an external collaborator: a string-keyed, string-valued store.
  Its two failures are modelled: access refused (\<^verbatim>\<open>getItem\<close> and \<^verbatim>\<open>setItem\<close> throw),
  and a value too large for the quota (\<^verbatim>\<open>setItem\<close> throws and stores nothing).
\<close>

record storage =
  items :: "string \<rightharpoonup> string"
  quota :: nat
  denied :: bool

definition getItem :: "storage \<Rightarrow> string \<Rightarrow> error + string option" where
  "getItem s k = (if denied s then Inl SecurityError else Inr (items s k))"

definition setItem :: "storage \<Rightarrow> string \<Rightarrow> string \<Rightarrow> error + storage" where
  "setItem s k v =
     (if denied s then Inl SecurityError
      else if quota s < length v then Inl QuotaExceededError
      else Inr (s\<lparr>items := (items s)(k \<mapsto> v)\<rparr>))"

subsection \<open>Live state source and command dispatch\<close>

text \<open>
  Of an entity's attributes only \<^verbatim>\<open>temperature\<close> is read by the modelled code. A
  JavaScript number is modelled as a real; \<^verbatim>\<open>None\<close> is an attribute that is absent,
  \<^verbatim>\<open>null\<close> or \<^verbatim>\<open>undefined\<close>.
\<close>

record attributes =
  temperature :: "real option"

record entity =
  entity_id :: string
  state :: string
  attributes :: attributes

record hass =
  states :: "string \<rightharpoonup> entity"

datatype param = Str string | Num real

record service_call =
  sc_domain :: string
  sc_service :: string
  sc_data :: "(string \<times> param) list"

subsection \<open>The component instance\<close>

text \<open>
  The fields of \<^verbatim>\<open>GlassmorphismDashboard\<close> that the modelled methods read or write,
  together with the three things outside the instance that they act on: the store, the
  list of errors given to \<^verbatim>\<open>console.error\<close>, and the list of calls made to
  \<^verbatim>\<open>hass.callService\<close>. \<^verbatim>\<open>_rooms\<close> is assigned by \<^verbatim>\<open>loadRoomConfig\<close>, which
  \<^verbatim>\<open>setConfig\<close> runs before any other method reads it.
\<close>

record dashboard =
  storage_key :: string
  rooms :: "room list"
  activeRoom :: nat
  hass_obj :: "hass option"
  store :: storage
  console :: "error list"
  calls :: "service_call list"

section \<open>Storage methods\<close>

text \<open>
  \<^verbatim>\<open>JSON.stringify\<close> and \<^verbatim>\<open>JSON.parse\<close> belong to the JavaScript runtime, not to this
  repository; the methods take them as parameters \<open>stringify\<close> and \<open>parse\<close>, and the
  section on the JSON runtime below defines the two functions \<open>JSON_stringify\<close> and
  \<open>JSON_parse\<close> that the methods are run with. A throw of \<^verbatim>\<open>JSON.stringify\<close> is \<open>Inl\<close>,
  a \<^verbatim>\<open>SyntaxError\<close> of \<^verbatim>\<open>JSON.parse\<close> is \<open>None\<close>. A blob that is well-formed JSON but
  not a list of rooms is outside the model.
\<close>

type_synonym json_stringify = "room list \<Rightarrow> error + string"
type_synonym json_parse = "string \<Rightarrow> room list option"

text \<open>
  \<^verbatim>\<open>saveRoomConfig\<close>: the \<^verbatim>\<open>try\<close> block serialises and writes; the \<^verbatim>\<open>catch\<close> block
  logs. The result is a sum so that a throw that left the method would be \<open>Inl\<close>.
\<close>

definition saveRoomConfig :: "json_stringify \<Rightarrow> dashboard \<Rightarrow> error + dashboard" where
  "saveRoomConfig stringify d =
     (case stringify (rooms d) of
        Inl e \<Rightarrow> Inr (d\<lparr>console := console d @ [e]\<rparr>)
      | Inr blob \<Rightarrow>
          (case setItem (store d) (storage_key d) blob of
             Inl e \<Rightarrow> Inr (d\<lparr>console := console d @ [e]\<rparr>)
           | Inr s \<Rightarrow> Inr (d\<lparr>store := s\<rparr>)))"

definition empty_room :: "string \<Rightarrow> string \<Rightarrow> string option \<Rightarrow> room" where
  "empty_room i n ic =
     \<lparr>room_id = i, name = n, icon = ic, lights = Some [], climate = Some [],
      media = Some [], sensors = Some [], switches = Some []\<rparr>"

fun getDefaultRooms :: "build \<Rightarrow> room list" where
  "getDefaultRooms Part_000 =
     [empty_room ''woonkamer'' ''Woonkamer'' (Some ''mdi:sofa''),
      empty_room ''slaapkamer'' ''Slaapkamer'' (Some ''mdi:bed''),
      empty_room ''keuken'' ''Keuken'' (Some ''mdi:silverware-fork-knife'')]"
| "getDefaultRooms Dist =
     [empty_room ''woonkamer'' ''Woonkamer'' None,
      empty_room ''slaapkamer'' ''Slaapkamer'' None,
      empty_room ''keuken'' ''Keuken'' None,
      empty_room ''kantoor'' ''Kantoor'' None,
      empty_room ''zolder'' ''Zolder'' None]"

text \<open>
  \<^verbatim>\<open>loadRoomConfig\<close>. \<^verbatim>\<open>if (saved)\<close> is true for a string that is neither
  \<^verbatim>\<open>null\<close> nor empty. A throw of \<^verbatim>\<open>getItem\<close> or \<^verbatim>\<open>JSON.parse\<close> happens before
  \<^verbatim>\<open>_rooms\<close> is assigned, so the \<^verbatim>\<open>catch\<close> block starts from the state the method
  was called in; it logs, assigns the defaults and does not call \<^verbatim>\<open>saveRoomConfig\<close>.
\<close>

definition loadRoomConfig ::
  "build \<Rightarrow> json_stringify \<Rightarrow> json_parse \<Rightarrow> dashboard \<Rightarrow> error + dashboard" where
  "loadRoomConfig b stringify parse d =
     (case getItem (store d) (storage_key d) of
        Inl e \<Rightarrow> Inr (d\<lparr>rooms := getDefaultRooms b, console := console d @ [e]\<rparr>)
      | Inr saved \<Rightarrow>
          (if saved \<noteq> None \<and> saved \<noteq> Some []
           then (case parse (the saved) of
                   Some rs \<Rightarrow> Inr (d\<lparr>rooms := rs\<rparr>)
                 | None \<Rightarrow>
                     Inr (d\<lparr>rooms := getDefaultRooms b, console := console d @ [SyntaxError]\<rparr>))
           else saveRoomConfig stringify (d\<lparr>rooms := getDefaultRooms b\<rparr>)))"

section \<open>Entity helper methods\<close>

text \<open>\<^verbatim>\<open>this._hass?.states?.[entityId]\<close>: nothing without a hass object or without an entry.\<close>

definition getState :: "dashboard \<Rightarrow> string \<Rightarrow> entity option" where
  "getState d entityId = (case hass_obj d of None \<Rightarrow> None | Some h \<Rightarrow> states h entityId)"

text \<open>\<^verbatim>\<open>this._hass?.callService(...)\<close>: the call is recorded; nothing happens without a hass object.\<close>

definition callService ::
  "string \<Rightarrow> string \<Rightarrow> (string \<times> param) list \<Rightarrow> dashboard \<Rightarrow> dashboard" where
  "callService domain service data d =
     (case hass_obj d of
        None \<Rightarrow> d
      | Some h \<Rightarrow>
          d\<lparr>calls := calls d @ [\<lparr>sc_domain = domain, sc_service = service, sc_data = data\<rparr>]\<rparr>)"

text \<open>\<^verbatim>\<open>entityId.split('.')[0]\<close> is the part of the identifier before its first dot.\<close>

definition toggleEntity :: "string \<Rightarrow> dashboard \<Rightarrow> dashboard" where
  "toggleEntity entityId d =
     (case getState d entityId of
        None \<Rightarrow> d
      | Some st \<Rightarrow>
          (let domain = takeWhile (\<lambda>c. c \<noteq> CHR ''.'') entityId in
           if domain = ''climate''
           then (let newMode = (if state st = ''off'' then ''heat_cool'' else ''off'') in
                 callService ''climate'' ''set_hvac_mode''
                   [(''entity_id'', Str entityId), (''hvac_mode'', Str newMode)] d)
           else callService ''homeassistant'' ''toggle'' [(''entity_id'', Str entityId)] d))"

definition setTemperature :: "string \<Rightarrow> real \<Rightarrow> dashboard \<Rightarrow> dashboard" where
  "setTemperature entityId t d =
     callService ''climate'' ''set_temperature''
       [(''entity_id'', Str entityId), (''temperature'', Num t)] d"

section \<open>Room management\<close>

text \<open>
  \<^verbatim>\<open>render()\<close> rebuilds the shadow DOM from the fields and assigns none of them; it is
  left out of the methods below. \<^verbatim>\<open>this._rooms[this._activeRoom]\<close> past the end of the
  array is \<^verbatim>\<open>undefined\<close>, and reading a property of it throws a \<^verbatim>\<open>TypeError\<close>.
\<close>

definition addEntityToRoom ::
  "json_stringify \<Rightarrow> string \<Rightarrow> category \<Rightarrow> dashboard \<Rightarrow> error + dashboard" where
  "addEntityToRoom stringify entityId cat d =
     (if activeRoom d < length (rooms d)
      then (let room = rooms d ! activeRoom d;
                b = (case room_get cat room of None \<Rightarrow> [] | Some xs \<Rightarrow> xs)
            in if entityId \<in> set b
               then Inr (d\<lparr>rooms := (rooms d)[activeRoom d := room_set cat b room]\<rparr>)
               else saveRoomConfig stringify
                      (d\<lparr>rooms := (rooms d)[activeRoom d := room_set cat (b @ [entityId]) room]\<rparr>))
      else Inl TypeError)"

definition removeEntityFromRoom ::
  "json_stringify \<Rightarrow> string \<Rightarrow> category \<Rightarrow> dashboard \<Rightarrow> error + dashboard" where
  "removeEntityFromRoom stringify entityId cat d =
     (if activeRoom d < length (rooms d)
      then (let room = rooms d ! activeRoom d in
            case room_get cat room of
              None \<Rightarrow> Inr d
            | Some b \<Rightarrow>
                saveRoomConfig stringify
                  (d\<lparr>rooms := (rooms d)[activeRoom d :=
                       room_set cat (filter (\<lambda>i. i \<noteq> entityId) b) room]\<rparr>))
      else Inl TypeError)"

subsection \<open>The identifier of a new room\<close>

text \<open>
  On the code units 0..255: \<^verbatim>\<open>toLowerCase\<close> maps A-Z and the capital letters
  U+00C0..U+00DE (without the multiplication sign U+00D7) to the letter 32 places up and
  leaves the rest; \<^verbatim>\<open>\s\<close> matches tab, line feed, vertical tab, form feed, carriage
  return, space and the no-break space U+00A0.
\<close>

definition toLowerCase_char :: "char \<Rightarrow> char" where
  "toLowerCase_char c =
     (let n = (of_char c :: nat) in
      if (65 \<le> n \<and> n \<le> 90) \<or> (192 \<le> n \<and> n \<le> 222 \<and> n \<noteq> 215)
      then char_of (n + 32) else c)"

definition toLowerCase :: "string \<Rightarrow> string" where
  "toLowerCase s = map toLowerCase_char s"

definition is_space :: "char \<Rightarrow> bool" where
  "is_space c = ((of_char c :: nat) \<in> {9, 10, 11, 12, 13, 32, 160})"

definition is_slug_char :: "char \<Rightarrow> bool" where
  "is_slug_char c =
     (let n = (of_char c :: nat) in
      (97 \<le> n \<and> n \<le> 122) \<or> (48 \<le> n \<and> n \<le> 57) \<or> n = 95)"

text \<open>
  \<^verbatim>\<open>.replace(/\s+/g, '_')\<close>: from left to right, every maximal run of white space becomes
  one underscore.
\<close>

function replace_spaces :: "string \<Rightarrow> string" where
  "replace_spaces [] = []"
| "replace_spaces (c # cs) =
     (if is_space c then CHR ''_'' # replace_spaces (dropWhile is_space cs)
      else c # replace_spaces cs)"
  by pat_completeness auto
termination
  by (relation "measure length") (auto simp: length_dropWhile_le less_Suc_eq_le)

text \<open>\<^verbatim>\<open>.replace(/[^a-z0-9_]/g, '')\<close>: every character outside the class is deleted.\<close>

definition strip_non_slug :: "string \<Rightarrow> string" where
  "strip_non_slug s = filter is_slug_char s"

definition slug :: "string \<Rightarrow> string" where
  "slug nm = strip_non_slug (replace_spaces (toLowerCase nm))"

text \<open>
  \<^verbatim>\<open>addRoom\<close>: push the new room, save, then make the last index active. The room literal
  has \<^verbatim>\<open>icon: 'mdi:home'\<close> in \<^verbatim>\<open>part_000\<close> and no icon in the dist file.
\<close>

definition addRoom :: "build \<Rightarrow> json_stringify \<Rightarrow> string \<Rightarrow> dashboard \<Rightarrow> error + dashboard" where
  "addRoom b stringify nm d =
     (let ic = (case b of Part_000 \<Rightarrow> Some ''mdi:home'' | Dist \<Rightarrow> None) in
      case saveRoomConfig stringify (d\<lparr>rooms := rooms d @ [empty_room (slug nm) nm ic]\<rparr>) of
        Inl e \<Rightarrow> Inl e
      | Inr d' \<Rightarrow> Inr (d'\<lparr>activeRoom := length (rooms d') - 1\<rparr>))"

text \<open>
  \<^verbatim>\<open>Array.prototype.splice(index, 1)\<close>: a negative start counts from the end, the start is
  clamped to the array, and one element is deleted if there is one at the start.
\<close>

definition splice1 :: "int \<Rightarrow> 'a list \<Rightarrow> 'a list" where
  "splice1 i xs =
     (let len = int (length xs);
          start = nat (if i < 0 then max (len + i) 0 else min i len)
      in take start xs @ drop (Suc start) xs)"

definition removeRoom :: "json_stringify \<Rightarrow> int \<Rightarrow> dashboard \<Rightarrow> error + dashboard" where
  "removeRoom stringify index d =
     (if length (rooms d) > 1
      then (let rs = splice1 index (rooms d);
                a = (if activeRoom d \<ge> length rs then length rs - 1 else activeRoom d)
            in saveRoomConfig stringify (d\<lparr>rooms := rs, activeRoom := a\<rparr>))
      else Inr d)"

section \<open>Climate card\<close>

text \<open>
  Of the markup that \<^verbatim>\<open>renderClimateDevice\<close> returns, the two \<^verbatim>\<open>temp-btn\<close> buttons: each
  carries \<^verbatim>\<open>data-temp-entity\<close> and \<^verbatim>\<open>data-temp\<close>. The number is written into the
  attribute and read back by \<^verbatim>\<open>parseFloat\<close> in the click handler; the model keeps the
  number. \<^verbatim>\<open>entity.attributes.temperature || 20\<close> is 20 for an absent value and for
  the falsy number 0. Numbers are reals here: the sum and the difference are those of
  the reals, which JavaScript computes without rounding when the target is a multiple
  of one half, as 0, 20 and 21 are; for a target such as 15.6 JavaScript rounds the sum
  to binary64 and the definition below does not follow it.
\<close>

record temp_btn =
  data_temp_entity :: string
  data_temp :: real

definition targetTemp :: "entity \<Rightarrow> real" where
  "targetTemp e =
     (case temperature (attributes e) of
        None \<Rightarrow> 20
      | Some t \<Rightarrow> if t = 0 then 20 else t)"

definition renderClimateDevice :: "entity \<Rightarrow> temp_btn \<times> temp_btn" where
  "renderClimateDevice e =
     (\<lparr>data_temp_entity = entity_id e, data_temp = targetTemp e - 0.5\<rparr>,
      \<lparr>data_temp_entity = entity_id e, data_temp = targetTemp e + 0.5\<rparr>)"

text \<open>The click handler that \<^verbatim>\<open>attachEventListeners\<close> puts on every \<^verbatim>\<open>.temp-btn\<close>.\<close>

definition temp_btn_click :: "temp_btn \<Rightarrow> dashboard \<Rightarrow> dashboard" where
  "temp_btn_click btn d = setTemperature (data_temp_entity btn) (data_temp btn) d"

section \<open>Sequences of bucket operations\<close>

text \<open>
  A sequence of \<^verbatim>\<open>addEntityToRoom\<close> and \<^verbatim>\<open>removeEntityFromRoom\<close> calls on one category
  of the active room, run from left to right; a throw ends the run.
\<close>

datatype entity_op = AddEntity string | RemoveEntity string

fun apply_op :: "json_stringify \<Rightarrow> category \<Rightarrow> entity_op \<Rightarrow> dashboard \<Rightarrow> error + dashboard" where
  "apply_op stringify cat (AddEntity e) d = addEntityToRoom stringify e cat d"
| "apply_op stringify cat (RemoveEntity e) d = removeEntityFromRoom stringify e cat d"

fun run_ops :: "json_stringify \<Rightarrow> category \<Rightarrow> entity_op list \<Rightarrow> dashboard \<Rightarrow> error + dashboard" where
  "run_ops stringify cat [] d = Inr d"
| "run_ops stringify cat (x # xs) d =
     (case apply_op stringify cat x d of
        Inl e \<Rightarrow> Inl e
      | Inr d' \<Rightarrow> run_ops stringify cat xs d')"

text \<open>
  The bucket of category \<open>cat\<close> in room \<open>i\<close>, read as the source reads it
  (\<^verbatim>\<open>this._rooms[i][category] || []\<close>).
\<close>

definition bucket :: "nat \<Rightarrow> category \<Rightarrow> dashboard \<Rightarrow> string list" where
  "bucket i cat d =
     (if i < length (rooms d)
      then (case room_get cat (rooms d ! i) of None \<Rightarrow> [] | Some b \<Rightarrow> b)
      else [])"

text \<open>
  The same run on a bucket whose members carry the number of the step that added them:
  a history variable beside the bucket, which the code does not keep. Step \<open>t\<close> is the
  operation at position \<open>t\<close> of the sequence.
\<close>

fun stamp_ops :: "nat \<Rightarrow> entity_op list \<Rightarrow> (string \<times> nat) list \<Rightarrow> (string \<times> nat) list" where
  "stamp_ops t [] sb = sb"
| "stamp_ops t (AddEntity e # xs) sb =
     stamp_ops (Suc t) xs (if e \<in> set (map fst sb) then sb else sb @ [(e, t)])"
| "stamp_ops t (RemoveEntity e # xs) sb =
     stamp_ops (Suc t) xs (filter (\<lambda>p. fst p \<noteq> e) sb)"

section \<open>The identifier of a new room, in the words of the specification\<close>

text \<open>
  Lowercase the name, collapse every run of white space to one underscore, strip every
  character outside \<^verbatim>\<open>[a-z0-9_]\<close>. The flag says whether the character before was
  white space.
\<close>

fun collapse_runs :: "bool \<Rightarrow> string \<Rightarrow> string" where
  "collapse_runs prev [] = []"
| "collapse_runs prev (c # cs) =
     (if is_space c
      then (if prev then collapse_runs True cs else CHR ''_'' # collapse_runs True cs)
      else c # collapse_runs False cs)"

definition slug_spec :: "string \<Rightarrow> string" where
  "slug_spec nm = filter is_slug_char (collapse_runs False (map toLowerCase_char nm))"

section \<open>The JSON runtime\<close>

text \<open>
  \<^verbatim>\<open>JSON.stringify\<close> and \<^verbatim>\<open>JSON.parse\<close> are not code of the repository. This section
  models them after the JSON grammar (ECMA-404) and the ECMAScript definitions of the
  two functions, on texts of 8-bit characters, so that the methods can be run on a
  concrete runtime. A JSON value keeps a number as its text.
\<close>

datatype json =
    JNull | JBool bool | JNumber string | JString string
  | JArray "json list" | JObject "(string \<times> json) list"

text \<open>
  The writer. \<^verbatim>\<open>JSON.stringify\<close> writes no white space, separates with commas and
  colons, and quotes a string with the escapes of \<^verbatim>\<open>QuoteJSONString\<close>: the short
  escapes for backspace, tab, line feed, form feed, carriage return, the quote and the
  backslash, the escape with \<^verbatim>\<open>u\<close> and four lower-case hexadecimal digits for the
  other characters below U+0020, and every other character as it is.
\<close>

definition hex_digit :: "nat \<Rightarrow> char" where
  "hex_digit n = (if n < 10 then char_of (48 + n) else char_of (87 + n))"

definition json_escape :: "char \<Rightarrow> string" where
  "json_escape c =
     (let n = (of_char c :: nat) in
      if n = 8 then [CHR 0x5C, CHR ''b'']
      else if n = 9 then [CHR 0x5C, CHR ''t'']
      else if n = 10 then [CHR 0x5C, CHR ''n'']
      else if n = 12 then [CHR 0x5C, CHR ''f'']
      else if n = 13 then [CHR 0x5C, CHR ''r'']
      else if n = 34 then [CHR 0x5C, CHR 0x22]
      else if n = 92 then [CHR 0x5C, CHR 0x5C]
      else if n < 32
        then [CHR 0x5C, CHR ''u'', CHR ''0'', CHR ''0'', hex_digit (n div 16), hex_digit (n mod 16)]
      else [c])"

definition json_string :: "string \<Rightarrow> string" where
  "json_string s = CHR 0x22 # concat (map json_escape s) @ [CHR 0x22]"

fun json_join :: "string list \<Rightarrow> string" where
  "json_join [] = []"
| "json_join [x] = x"
| "json_join (x # y # ys) = x @ CHR '','' # json_join (y # ys)"

fun print_json :: "json \<Rightarrow> string" where
  "print_json JNull = ''null''"
| "print_json (JBool True) = ''true''"
| "print_json (JBool False) = ''false''"
| "print_json (JNumber l) = l"
| "print_json (JString s) = json_string s"
| "print_json (JArray vs) = CHR ''['' # json_join (map print_json vs) @ [CHR '']'']"
| "print_json (JObject ms) =
     CHR ''{'' # json_join (map (\<lambda>(k, v). json_string k @ CHR '':'' # print_json v) ms) @ [CHR ''}'']"

text \<open>
  The reader. White space is space, tab, line feed and carriage return. A string ends
  at the first quote that is not escaped; a raw character below U+0020 and an unknown
  escape are errors, and so is an escape with \<^verbatim>\<open>u\<close> of a code above U+00FF, which is
  not an 8-bit character. A number is taken by the grammar: minus, integer part without
  a leading zero, fraction, exponent.
\<close>

definition json_ws :: "char \<Rightarrow> bool" where
  "json_ws c = ((of_char c :: nat) \<in> {32, 9, 10, 13})"

definition skip_ws :: "string \<Rightarrow> string" where
  "skip_ws s = dropWhile json_ws s"

definition hex_value :: "char \<Rightarrow> nat option" where
  "hex_value c =
     (let n = (of_char c :: nat) in
      if 48 \<le> n \<and> n \<le> 57 then Some (n - 48)
      else if 97 \<le> n \<and> n \<le> 102 then Some (n - 87)
      else if 65 \<le> n \<and> n \<le> 70 then Some (n - 55)
      else None)"

definition unescape :: "char \<Rightarrow> char option" where
  "unescape e =
     (if e = CHR 0x22 \<or> e = CHR 0x5C \<or> e = CHR ''/'' then Some e
      else if e = CHR ''b'' then Some (CHR 0x08)
      else if e = CHR ''f'' then Some (CHR 0x0C)
      else if e = CHR ''n'' then Some (CHR 0x0A)
      else if e = CHR ''r'' then Some (CHR 0x0D)
      else if e = CHR ''t'' then Some (CHR 0x09)
      else None)"

definition cons_result :: "char \<Rightarrow> (string \<times> string) option \<Rightarrow> (string \<times> string) option" where
  "cons_result c r = (case r of None \<Rightarrow> None | Some (s, t) \<Rightarrow> Some (c # s, t))"

fun parse_chars :: "string \<Rightarrow> (string \<times> string) option" where
  "parse_chars [] = None"
| "parse_chars (c # cs) =
     (if c = CHR 0x22 then Some ([], cs)
      else if c = CHR 0x5C then
        (case cs of
           [] \<Rightarrow> None
         | e # r \<Rightarrow>
             if e = CHR ''u'' then
               (case r of
                  h1 # h2 # h3 # h4 # r' \<Rightarrow>
                    (case (hex_value h1, hex_value h2, hex_value h3, hex_value h4) of
                       (Some a, Some b, Some x, Some y) \<Rightarrow>
                         if a = 0 \<and> b = 0 then cons_result (char_of (16 * x + y)) (parse_chars r')
                         else None
                     | _ \<Rightarrow> None)
                | _ \<Rightarrow> None)
             else (case unescape e of
                     None \<Rightarrow> None
                   | Some x \<Rightarrow> cons_result x (parse_chars r)))
      else if (of_char c :: nat) < 32 then None
      else cons_result c (parse_chars cs))"

definition is_digit :: "char \<Rightarrow> bool" where
  "is_digit c = (let n = (of_char c :: nat) in 48 \<le> n \<and> n \<le> 57)"

definition scan_digits1 :: "string \<Rightarrow> (string \<times> string) option" where
  "scan_digits1 s =
     (if takeWhile is_digit s = [] then None
      else Some (takeWhile is_digit s, dropWhile is_digit s))"

definition scan_int :: "string \<Rightarrow> (string \<times> string) option" where
  "scan_int s =
     (case s of
        [] \<Rightarrow> None
      | c # cs \<Rightarrow> if c = CHR ''0'' then Some ([c], cs) else scan_digits1 s)"

definition scan_frac :: "string \<Rightarrow> (string \<times> string) option" where
  "scan_frac s =
     (case s of
        [] \<Rightarrow> Some ([], s)
      | c # cs \<Rightarrow>
          if c = CHR ''.'' then (case scan_digits1 cs of None \<Rightarrow> None | Some (ds, r) \<Rightarrow> Some (c # ds, r))
          else Some ([], s))"

definition scan_exp :: "string \<Rightarrow> (string \<times> string) option" where
  "scan_exp s =
     (case s of
        [] \<Rightarrow> Some ([], s)
      | c # cs \<Rightarrow>
          if c = CHR ''e'' \<or> c = CHR ''E'' then
            (case cs of
               [] \<Rightarrow> None
             | g # r \<Rightarrow>
                 if g = CHR ''+'' \<or> g = CHR ''-''
                 then (case scan_digits1 r of None \<Rightarrow> None | Some (ds, t) \<Rightarrow> Some (c # g # ds, t))
                 else (case scan_digits1 cs of None \<Rightarrow> None | Some (ds, t) \<Rightarrow> Some (c # ds, t)))
          else Some ([], s))"

definition parse_number :: "string \<Rightarrow> (string \<times> string) option" where
  "parse_number s =
     (let (sign, s1) = (case s of c # cs \<Rightarrow> if c = CHR ''-'' then ([c], cs) else ([], s) | [] \<Rightarrow> ([], s))
      in case scan_int s1 of
           None \<Rightarrow> None
         | Some (i, s2) \<Rightarrow>
             (case scan_frac s2 of
                None \<Rightarrow> None
              | Some (f, s3) \<Rightarrow>
                  (case scan_exp s3 of
                     None \<Rightarrow> None
                   | Some (x, s4) \<Rightarrow> Some (sign @ i @ f @ x, s4))))"

definition expect_literal :: "string \<Rightarrow> string \<Rightarrow> string option" where
  "expect_literal l s = (if take (length l) s = l then Some (drop (length l) s) else None)"

text \<open>
  Values, the elements of an array after its bracket, and the members of an object
  after its brace. The first argument bounds the number of nested calls; \<open>None\<close> is a
  \<^verbatim>\<open>SyntaxError\<close>. \<open>json_parse_text\<close> reads one value with white space around it and
  nothing else, with one more call than the text has characters.
\<close>

fun parse_value :: "nat \<Rightarrow> string \<Rightarrow> (json \<times> string) option"
  and parse_elements :: "nat \<Rightarrow> string \<Rightarrow> (json list \<times> string) option"
  and parse_members :: "nat \<Rightarrow> string \<Rightarrow> ((string \<times> json) list \<times> string) option" where
  "parse_value 0 s = None"
| "parse_value (Suc n) s =
     (case skip_ws s of
        [] \<Rightarrow> None
      | c # cs \<Rightarrow>
          if c = CHR 0x22 then
            (case parse_chars cs of None \<Rightarrow> None | Some (x, r) \<Rightarrow> Some (JString x, r))
          else if c = CHR ''['' then
            (case skip_ws cs of
               [] \<Rightarrow> None
             | e # r \<Rightarrow>
                 if e = CHR '']'' then Some (JArray [], r)
                 else (case parse_elements n cs of
                         None \<Rightarrow> None
                       | Some (vs, t) \<Rightarrow> Some (JArray vs, t)))
          else if c = CHR ''{'' then
            (case skip_ws cs of
               [] \<Rightarrow> None
             | e # r \<Rightarrow>
                 if e = CHR ''}'' then Some (JObject [], r)
                 else (case parse_members n cs of
                         None \<Rightarrow> None
                       | Some (ms, t) \<Rightarrow> Some (JObject ms, t)))
          else if c = CHR ''n'' then
            (case expect_literal ''null'' (c # cs) of None \<Rightarrow> None | Some r \<Rightarrow> Some (JNull, r))
          else if c = CHR ''t'' then
            (case expect_literal ''true'' (c # cs) of None \<Rightarrow> None | Some r \<Rightarrow> Some (JBool True, r))
          else if c = CHR ''f'' then
            (case expect_literal ''false'' (c # cs) of None \<Rightarrow> None | Some r \<Rightarrow> Some (JBool False, r))
          else (case parse_number (c # cs) of None \<Rightarrow> None | Some (l, r) \<Rightarrow> Some (JNumber l, r)))"
| "parse_elements 0 s = None"
| "parse_elements (Suc n) s =
     (case parse_value n s of
        None \<Rightarrow> None
      | Some (v, r) \<Rightarrow>
          (case skip_ws r of
             [] \<Rightarrow> None
           | c # cs \<Rightarrow>
               if c = CHR '','' then
                 (case parse_elements n cs of None \<Rightarrow> None | Some (vs, t) \<Rightarrow> Some (v # vs, t))
               else if c = CHR '']'' then Some ([v], cs)
               else None))"
| "parse_members 0 s = None"
| "parse_members (Suc n) s =
     (case skip_ws s of
        [] \<Rightarrow> None
      | q # s1 \<Rightarrow>
          if q \<noteq> CHR 0x22 then None
          else (case parse_chars s1 of
                  None \<Rightarrow> None
                | Some (k, s2) \<Rightarrow>
                    (case skip_ws s2 of
                       [] \<Rightarrow> None
                     | colon # s3 \<Rightarrow>
                         if colon \<noteq> CHR '':'' then None
                         else (case parse_value n s3 of
                                 None \<Rightarrow> None
                               | Some (v, r) \<Rightarrow>
                                   (case skip_ws r of
                                      [] \<Rightarrow> None
                                    | c # cs \<Rightarrow>
                                        if c = CHR '','' then
                                          (case parse_members n cs of
                                             None \<Rightarrow> None
                                           | Some (ms, t) \<Rightarrow> Some ((k, v) # ms, t))
                                        else if c = CHR ''}'' then Some ([(k, v)], cs)
                                        else None)))))"

definition json_parse_text :: "string \<Rightarrow> json option" where
  "json_parse_text s =
     (case parse_value (Suc (length s)) s of
        None \<Rightarrow> None
      | Some (v, r) \<Rightarrow> if skip_ws r = [] then Some v else None)"

text \<open>A value without a number in it.\<close>

fun no_number :: "json \<Rightarrow> bool" where
  "no_number (JNumber l) = False"
| "no_number (JArray vs) = list_all no_number vs"
| "no_number (JObject ms) = list_all (\<lambda>m. no_number (snd m)) ms"
| "no_number v = True"

subsection \<open>Room lists as JSON values\<close>

text \<open>
  A room object has its properties in the order of the room literals of the source,
  which is the order in which \<^verbatim>\<open>JSON.stringify\<close> writes them; a property that the
  object lacks is left out.
\<close>

definition opt_member :: "string \<Rightarrow> json option \<Rightarrow> (string \<times> json) list" where
  "opt_member k v = (case v of None \<Rightarrow> [] | Some j \<Rightarrow> [(k, j)])"

definition json_of_bucket :: "string list \<Rightarrow> json" where
  "json_of_bucket xs = JArray (map JString xs)"

definition json_of_room :: "room \<Rightarrow> json" where
  "json_of_room r =
     JObject
       (opt_member ''id'' (Some (JString (room_id r))) @
        opt_member ''name'' (Some (JString (name r))) @
        opt_member ''icon'' (map_option JString (icon r)) @
        opt_member ''lights'' (map_option json_of_bucket (lights r)) @
        opt_member ''climate'' (map_option json_of_bucket (climate r)) @
        opt_member ''media'' (map_option json_of_bucket (media r)) @
        opt_member ''sensors'' (map_option json_of_bucket (sensors r)) @
        opt_member ''switches'' (map_option json_of_bucket (switches r)))"

definition json_text :: "room list \<Rightarrow> string" where
  "json_text rs = print_json (JArray (map json_of_room rs))"

definition JSON_stringify :: json_stringify where
  "JSON_stringify rs = Inr (json_text rs)"

text \<open>
  Back from a JSON value. Of a key that an object text has twice, \<^verbatim>\<open>JSON.parse\<close> keeps
  the last value. A value that is not a list of room objects (another kind of value,
  a key that a room does not have, an identifier or name that is not a string, a bucket
  that is not a list of strings) is outside the model, as said of the storage methods above; here
  it gives \<open>None\<close>.
\<close>

definition json_get :: "string \<Rightarrow> (string \<times> json) list \<Rightarrow> json option" where
  "json_get k ms = map_of (rev ms) k"

definition string_of_json :: "json \<Rightarrow> string option" where
  "string_of_json j = (case j of JString s \<Rightarrow> Some s | _ \<Rightarrow> None)"

definition bucket_of_json :: "json \<Rightarrow> string list option" where
  "bucket_of_json j = (case j of JArray vs \<Rightarrow> those (map string_of_json vs) | _ \<Rightarrow> None)"

definition optional :: "(json \<Rightarrow> 'a option) \<Rightarrow> json option \<Rightarrow> 'a option option" where
  "optional f j = (case j of None \<Rightarrow> Some None | Some v \<Rightarrow> map_option Some (f v))"

definition room_keys :: "string list" where
  "room_keys =
     [''id'', ''name'', ''icon'', ''lights'', ''climate'', ''media'', ''sensors'', ''switches'']"

definition room_of_json :: "json \<Rightarrow> room option" where
  "room_of_json j =
     (case j of
        JObject ms \<Rightarrow>
          if \<not> list_all (\<lambda>k. k \<in> set room_keys) (map fst ms) then None
          else
            Option.bind (Option.bind (json_get ''id'' ms) string_of_json) (\<lambda>i.
            Option.bind (Option.bind (json_get ''name'' ms) string_of_json) (\<lambda>n.
            Option.bind (optional string_of_json (json_get ''icon'' ms)) (\<lambda>ic.
            Option.bind (optional bucket_of_json (json_get ''lights'' ms)) (\<lambda>l.
            Option.bind (optional bucket_of_json (json_get ''climate'' ms)) (\<lambda>c.
            Option.bind (optional bucket_of_json (json_get ''media'' ms)) (\<lambda>m.
            Option.bind (optional bucket_of_json (json_get ''sensors'' ms)) (\<lambda>se.
            Option.bind (optional bucket_of_json (json_get ''switches'' ms)) (\<lambda>sw.
              Some \<lparr>room_id = i, name = n, icon = ic, lights = l, climate = c,
                    media = m, sensors = se, switches = sw\<rparr>))))))))
      | _ \<Rightarrow> None)"

definition rooms_of_json :: "json \<Rightarrow> room list option" where
  "rooms_of_json j = (case j of JArray vs \<Rightarrow> those (map room_of_json vs) | _ \<Rightarrow> None)"

definition JSON_parse :: json_parse where
  "JSON_parse s = (case json_parse_text s of None \<Rightarrow> None | Some j \<Rightarrow> rooms_of_json j)"

section \<open>Example states\<close>

text \<open>
  A store with room for five million characters, and the same store full. The live
  state source has a climate device that is off with target 21, one that heats with no
  target, one that cools with target 0, and a light.
\<close>

definition example_store :: storage where
  "example_store = \<lparr>items = Map.empty, quota = 5000000, denied = False\<rparr>"

definition full_store :: storage where
  "full_store = \<lparr>items = Map.empty, quota = 0, denied = False\<rparr>"

definition example_entity :: "string \<Rightarrow> string \<Rightarrow> real option \<Rightarrow> entity" where
  "example_entity i s t = \<lparr>entity_id = i, state = s, attributes = \<lparr>temperature = t\<rparr>\<rparr>"

definition example_hass :: hass where
  "example_hass =
     \<lparr>states =
        [''climate.woonkamer'' \<mapsto> example_entity ''climate.woonkamer'' ''off'' (Some 21),
         ''climate.slaapkamer'' \<mapsto> example_entity ''climate.slaapkamer'' ''heat'' None,
         ''climate.vriezer'' \<mapsto> example_entity ''climate.vriezer'' ''cool'' (Some 0),
         ''light.keuken'' \<mapsto> example_entity ''light.keuken'' ''on'' None]\<rparr>"

definition example_dashboard :: "build \<Rightarrow> dashboard" where
  "example_dashboard b =
     \<lparr>storage_key = ''glassmorphism_dashboard_rooms'', rooms = getDefaultRooms b,
      activeRoom = 0, hass_obj = Some example_hass, store = example_store,
      console = [], calls = []\<rparr>"

text \<open>
  The instance as the constructor and \<^verbatim>\<open>setConfig\<close> leave it when \<^verbatim>\<open>loadRoomConfig\<close>
  starts: \<^verbatim>\<open>_rooms\<close> is not assigned yet (here the empty list). \<open>corrupt_store\<close> holds
  a blob under the default key that is not JSON; \<open>locked_store\<close> refuses access.
\<close>

definition fresh_dashboard :: "storage \<Rightarrow> dashboard" where
  "fresh_dashboard st =
     \<lparr>storage_key = ''glassmorphism_dashboard_rooms'', rooms = [], activeRoom = 0,
      hass_obj = None, store = st, console = [], calls = []\<rparr>"

definition corrupt_store :: storage where
  "corrupt_store =
     \<lparr>items = [''glassmorphism_dashboard_rooms'' \<mapsto> ''{oops''], quota = 5000000,
      denied = False\<rparr>"

definition locked_store :: storage where
  "locked_store = \<lparr>items = Map.empty, quota = 5000000, denied = True\<rparr>"

text \<open>A configuration with a single room.\<close>

definition one_room :: dashboard where
  "one_room = (example_dashboard Dist)\<lparr>rooms := [empty_room ''tuin'' ''Tuin'' None]\<rparr>"

text \<open>
  A room list that is not the default one. The name of its first room ends in a quote,
  a backslash, a line feed and the control character U+001F, each of which the writer
  escapes; the room has an icon, two filled buckets, an empty one, and no \<^verbatim>\<open>climate\<close>
  and \<^verbatim>\<open>switches\<close> properties.
\<close>

definition garden_rooms :: "room list" where
  "garden_rooms =
     [\<lparr>room_id = ''tuin'', name = ''Tuin '' @ [CHR 0x22, CHR 0x5C, CHR 0x0A, CHR 0x1F],
       icon = Some ''mdi:tree'', lights = Some [''light.tuin'', ''light.schuur''],
       climate = None, media = Some [], sensors = Some [''sensor.regen''], switches = None\<rparr>,
      empty_room ''zolder'' ''Zolder'' None]"

definition garden_dashboard :: dashboard where
  "garden_dashboard = (example_dashboard Dist)\<lparr>rooms := garden_rooms\<rparr>"

section \<open>The reader inverts the writer\<close>

lemma char_eq_code: "(c = d) = ((of_char c :: nat) = of_char d)"
  by simp

lemma of_char_less_256: "(of_char c :: nat) < 256"
proof -
  have "(of_char c :: nat) mod 256 = of_char c" by simp
  then show ?thesis by (metis mod_less_divisor zero_less_numeral)
qed

lemma char_of_eq_code: "n < 256 \<Longrightarrow> (d = char_of n) = ((of_char d :: nat) = n)"
  by (metis of_char_of mod_less char_of_char)

lemma char_of_lits:
  "char_of (8 :: nat) = CHR 0x08" "char_of (9 :: nat) = CHR 0x09" "char_of (10 :: nat) = CHR 0x0A"
  "char_of (12 :: nat) = CHR 0x0C" "char_of (13 :: nat) = CHR 0x0D" "char_of (34 :: nat) = CHR 0x22"
  "char_of (92 :: nat) = CHR 0x5C"
  by code_simp+

lemma hex_value_digit: "k < 16 \<Longrightarrow> hex_value (hex_digit k) = Some k"
  by (auto simp: hex_value_def hex_digit_def Let_def)

lemma cons_result_simps:
  "cons_result c None = None"
  "cons_result c (Some (s, t)) = Some (c # s, t)"
  by (simp_all add: cons_result_def)

lemma parse_chars_plain:
  assumes "32 \<le> (of_char c :: nat)" "(of_char c :: nat) \<noteq> 34" "(of_char c :: nat) \<noteq> 92"
  shows "parse_chars (c # t) = cons_result c (parse_chars t)"
  using assms by (simp add: char_eq_code[of c] del: of_char_eq_iff)

lemma parse_chars_short:
  assumes "unescape e = Some c" "e \<noteq> CHR ''u''"
  shows "parse_chars (CHR 0x5C # e # t) = cons_result c (parse_chars t)"
  using assms by simp

lemma parse_chars_unicode:
  assumes "n < 32"
  shows "parse_chars (CHR 0x5C # CHR ''u'' # CHR ''0'' # CHR ''0'' # hex_digit (n div 16) #
      hex_digit (n mod 16) # t) = cons_result (char_of n) (parse_chars t)"
proof -
  have z: "hex_value CHR ''0'' = Some 0" by (simp add: hex_value_def)
  from assms have "n div 16 < 16" by simp
  then have a: "hex_value (hex_digit (n div 16)) = Some (n div 16)" by (rule hex_value_digit)
  have b: "hex_value (hex_digit (n mod 16)) = Some (n mod 16)" by (rule hex_value_digit) simp
  show ?thesis by (simp add: z a b)
qed

lemma parse_chars_escape: "parse_chars (json_escape c @ t) = cons_result c (parse_chars t)"
proof -
  define n where "n = (of_char c :: nat)"
  have c: "c = char_of n" by (simp add: n_def)
  consider "n = 8" | "n = 9" | "n = 10" | "n = 12" | "n = 13" | "n = 34" | "n = 92"
    | "n < 32" "n \<notin> {8, 9, 10, 12, 13}" | "32 \<le> n" "n \<noteq> 34" "n \<noteq> 92"
    by fastforce
  then show ?thesis
  proof cases
    case 8
    from 8(2) have e: "json_escape c = [CHR 0x5C, CHR ''u'', CHR ''0'', CHR ''0'',
        hex_digit (n div 16), hex_digit (n mod 16)]"
      using 8(1) by (auto simp: json_escape_def Let_def n_def[symmetric])
    have "parse_chars (json_escape c @ t) = cons_result (char_of n) (parse_chars t)"
      by (simp only: e append_Cons append_Nil parse_chars_unicode[OF 8(1)])
    then show ?thesis by (simp only: c[symmetric])
  next
    case 9
    then have "json_escape c = [c]"
      by (auto simp: json_escape_def Let_def n_def[symmetric])
    with 9 show ?thesis using parse_chars_plain[of c t] by (simp add: n_def)
  qed (simp_all add: c json_escape_def unescape_def parse_chars_short char_of_lits)
qed

lemma parse_chars_string:
  "parse_chars (concat (map json_escape s) @ CHR 0x22 # rest) = Some (s, rest)"
  by (induction s) (simp_all add: parse_chars_escape cons_result_simps del: parse_chars.simps,
      simp)

lemma skip_ws_Cons: "\<not> json_ws c \<Longrightarrow> skip_ws (c # cs) = c # cs"
  by (simp add: skip_ws_def)

lemma json_ws_lits:
  "\<not> json_ws CHR 0x22" "\<not> json_ws CHR ''[''" "\<not> json_ws CHR '']''" "\<not> json_ws CHR ''{''"
  "\<not> json_ws CHR ''}''" "\<not> json_ws CHR '',''" "\<not> json_ws CHR '':''" "\<not> json_ws CHR ''n''"
  "\<not> json_ws CHR ''t''" "\<not> json_ws CHR ''f''"
  by (simp_all add: json_ws_def)

lemma print_json_head:
  assumes "no_number v"
  obtains h u where "print_json v = h # u" "\<not> json_ws h" "h \<noteq> CHR '']''" "h \<noteq> CHR ''}''"
  using assms by (cases v rule: print_json.cases) (auto simp: json_string_def json_ws_lits)

lemma json_join_Cons:
  "json_join (x # xs) = (if xs = [] then x else x @ CHR '','' # json_join xs)"
  by (cases xs) simp_all

lemma parse_string_value:
  "parse_value (Suc n) (json_string s @ rest) = Some (JString s, rest)"
  by (simp add: json_string_def skip_ws_Cons json_ws_lits parse_chars_string)

lemma parse_elements_print:
  assumes "vs \<noteq> []"
    and "\<And>v n rest. v \<in> set vs \<Longrightarrow> length (print_json v) \<le> n \<Longrightarrow>
           parse_value n (print_json v @ rest) = Some (v, rest)"
    and "\<And>v. v \<in> set vs \<Longrightarrow> print_json v \<noteq> []"
    and "length (json_join (map print_json vs)) < n"
  shows "parse_elements n (json_join (map print_json vs) @ CHR '']'' # rest) = Some (vs, rest)"
  using assms
proof (induction vs arbitrary: n)
  case Nil
  then show ?case by simp
next
  case (Cons v vs)
  from Cons.prems(4) obtain m where n: "n = Suc m" by (cases n) auto
  have nonempty: "print_json v \<noteq> []" using Cons.prems(3) by simp
  show ?case
  proof (cases "vs = []")
    case True
    with Cons.prems(4) n have "length (print_json v) \<le> m" by simp
    with Cons.prems(2) have "parse_value m (print_json v @ CHR '']'' # rest) = Some (v, CHR '']'' # rest)"
      by simp
    with True n show ?thesis by (simp add: skip_ws_Cons json_ws_lits)
  next
    case False
    let ?more = "json_join (map print_json vs)"
    from False have j: "json_join (print_json v # map print_json vs) =
        print_json v @ CHR '','' # ?more"
      by (simp add: json_join_Cons)
    with Cons.prems(4) n have l: "length (print_json v) \<le> m" "length ?more < m"
      using nonempty by (auto simp: Suc_le_eq dest: length_greater_0_conv[THEN iffD2])
    from Cons.prems(2) l(1)
    have v: "parse_value m (print_json v @ CHR '','' # ?more @ CHR '']'' # rest) =
        Some (v, CHR '','' # ?more @ CHR '']'' # rest)"
      by simp
    have "parse_elements m (?more @ CHR '']'' # rest) = Some (vs, rest)"
      using False Cons.prems(2,3) l(2) by (intro Cons.IH) auto
    with v n show ?thesis by (simp add: j skip_ws_Cons json_ws_lits)
  qed
qed

lemma parse_members_step:
  "parse_members (Suc m) (json_string k @ CHR '':'' # s) =
     (case parse_value m s of
        None \<Rightarrow> None
      | Some (v, r) \<Rightarrow>
          (case skip_ws r of
             [] \<Rightarrow> None
           | c # cs \<Rightarrow>
               if c = CHR '','' then
                 (case parse_members m cs of None \<Rightarrow> None | Some (ms, t) \<Rightarrow> Some ((k, v) # ms, t))
               else if c = CHR ''}'' then Some ([(k, v)], cs)
               else None))"
  by (simp add: json_string_def skip_ws_Cons json_ws_lits parse_chars_string)

lemma parse_members_print:
  assumes "ms \<noteq> []"
    and "\<And>k v n rest. (k, v) \<in> set ms \<Longrightarrow> length (print_json v) \<le> n \<Longrightarrow>
           parse_value n (print_json v @ rest) = Some (v, rest)"
    and "length (json_join (map (\<lambda>(k, v). json_string k @ CHR '':'' # print_json v) ms)) < n"
  shows "parse_members n (json_join (map (\<lambda>(k, v). json_string k @ CHR '':'' # print_json v) ms) @
      CHR ''}'' # rest) = Some (ms, rest)"
  using assms
proof (induction ms arbitrary: n)
  case Nil
  then show ?case by simp
next
  case (Cons kv ms)
  obtain k v where kv: "kv = (k, v)" by (cases kv)
  from Cons.prems(3) obtain m where n: "n = Suc m" by (cases n) auto
  let ?txt = "\<lambda>(k, v). json_string k @ CHR '':'' # print_json v"
  have key: "parse_chars (concat (map json_escape k) @ CHR 0x22 # t) = Some (k, t)" for t
    by (rule parse_chars_string)
  show ?case
  proof (cases "ms = []")
    case True
    with Cons.prems(3) n kv have "length (print_json v) \<le> m"
      by (simp add: json_string_def)
    with Cons.prems(2)[of k v] kv
    have "parse_value m (print_json v @ CHR ''}'' # rest) = Some (v, CHR ''}'' # rest)"
      by simp
    then have "parse_members (Suc m) (json_string k @ CHR '':'' # print_json v @ CHR ''}'' # rest) =
        Some ([(k, v)], rest)"
      by (simp only: parse_members_step) (simp add: skip_ws_Cons json_ws_lits)
    with True n kv show ?thesis
      by (simp del: parse_members.simps parse_value.simps)
  next
    case False
    let ?more = "json_join (map ?txt ms)"
    from False kv have j: "json_join ((json_string k @ CHR '':'' # print_json v) # map ?txt ms) =
        json_string k @ CHR '':'' # print_json v @ CHR '','' # ?more"
      by (simp add: json_join_Cons)
    with Cons.prems(3) n kv have l: "length (print_json v) \<le> m" "length ?more < m"
      by (simp_all add: json_string_def)
    from Cons.prems(2)[of k v] kv l(1)
    have v: "parse_value m (print_json v @ CHR '','' # ?more @ CHR ''}'' # rest) =
        Some (v, CHR '','' # ?more @ CHR ''}'' # rest)"
      by simp
    have "parse_members m (?more @ CHR ''}'' # rest) = Some (ms, rest)"
      using False Cons.prems(2) l(2) by (intro Cons.IH) auto
    with v have "parse_members (Suc m)
        (json_string k @ CHR '':'' # print_json v @ CHR '','' # ?more @ CHR ''}'' # rest) =
        Some ((k, v) # ms, rest)"
      by (simp only: parse_members_step) (simp add: skip_ws_Cons json_ws_lits)
    with n kv show ?thesis
      by (simp add: j del: parse_members.simps parse_value.simps)
  qed
qed

lemma print_json_nonempty: "no_number v \<Longrightarrow> print_json v \<noteq> []"
  by (erule print_json_head) simp

lemma parse_print_json:
  "no_number v \<Longrightarrow> length (print_json v) \<le> n \<Longrightarrow>
     parse_value n (print_json v @ rest) = Some (v, rest)"
proof (induction v arbitrary: n rest)
  case JNull
  then obtain m where "n = Suc m" by (cases n) auto
  then show ?case by (simp add: skip_ws_Cons json_ws_lits expect_literal_def)
next
  case (JBool b)
  then obtain m where "n = Suc m" by (cases n; cases b) auto
  then show ?case by (cases b) (simp_all add: skip_ws_Cons json_ws_lits expect_literal_def)
next
  case (JNumber l)
  then show ?case by simp
next
  case (JString s)
  then obtain m where "n = Suc m" by (cases n) (auto simp: json_string_def)
  then show ?case by (simp only: print_json.simps parse_string_value)
next
  case (JArray vs)
  from JArray.prems(2) obtain m where n: "n = Suc m" by (cases n) auto
  show ?case
  proof (cases "vs = []")
    case True
    with n show ?thesis by (simp add: skip_ws_Cons json_ws_lits)
  next
    case False
    let ?body = "json_join (map print_json vs)"
    from JArray.prems(1) have nn: "\<And>v. v \<in> set vs \<Longrightarrow> no_number v"
      by (simp add: list_all_iff)
    from JArray.prems(2) n have l: "length ?body < m" by simp
    have e: "parse_elements m (?body @ CHR '']'' # rest) = Some (vs, rest)"
      using False JArray.IH nn print_json_nonempty l
      by (intro parse_elements_print) auto
    from False obtain v ws where vs: "vs = v # ws" by (cases vs) auto
    with nn have "no_number v" by simp
    then obtain h u where h: "print_json v = h # u" "\<not> json_ws h" "h \<noteq> CHR '']''"
      by (rule print_json_head)
    with vs have "\<exists>t. ?body @ CHR '']'' # rest = h # t"
      by (simp add: json_join_Cons)
    then obtain t where t: "?body @ CHR '']'' # rest = h # t" ..
    with h(2) have "skip_ws (?body @ CHR '']'' # rest) = h # t"
      by (simp add: skip_ws_Cons)
    with n e h(3) show ?thesis
      by (simp add: skip_ws_Cons json_ws_lits)
  qed
next
  case (JObject ms)
  from JObject.prems(2) obtain m where n: "n = Suc m" by (cases n) auto
  let ?txt = "\<lambda>(k, v). json_string k @ CHR '':'' # print_json v"
  show ?case
  proof (cases "ms = []")
    case True
    with n show ?thesis by (simp add: skip_ws_Cons json_ws_lits)
  next
    case False
    let ?body = "json_join (map ?txt ms)"
    from JObject.prems(1) have nn: "\<And>k v. (k, v) \<in> set ms \<Longrightarrow> no_number v"
      by (auto simp: list_all_iff)
    from JObject.prems(2) n have l: "length ?body < m" by simp
    have ih: "parse_value n (print_json v @ rest) = Some (v, rest)"
      if "(k, v) \<in> set ms" "length (print_json v) \<le> n" for k v n rest
      using JObject.IH[of "(k, v)" v n rest] that nn[of k v] by simp
    have e: "parse_members m (?body @ CHR ''}'' # rest) = Some (ms, rest)"
      using False ih l by (intro parse_members_print) auto
    from False obtain k v ws where ms: "ms = (k, v) # ws" by (cases ms) auto
    then have "?body @ CHR ''}'' # rest =
        CHR 0x22 # tl (?body @ CHR ''}'' # rest)"
      by (simp add: json_join_Cons json_string_def)
    then obtain t where t: "?body @ CHR ''}'' # rest = CHR 0x22 # t" ..
    then have "skip_ws (?body @ CHR ''}'' # rest) = CHR 0x22 # t"
      by (simp add: skip_ws_Cons json_ws_lits)
    with n e show ?thesis
      by (simp add: skip_ws_Cons json_ws_lits)
  qed
qed

lemma json_parse_print:
  "no_number v \<Longrightarrow> json_parse_text (print_json v) = Some v"
  using parse_print_json[of v "Suc (length (print_json v))" "[]"]
  by (simp add: json_parse_text_def skip_ws_def)

subsection \<open>Room lists\<close>

text \<open>
  Reading a room object back: every key that the writer wrote is found with its value,
  every other key of a room is absent, and no key is foreign. Hence \<open>JSON_parse\<close>
  returns the room list that \<open>JSON_stringify\<close> was given, for every room list.
\<close>

lemma json_get_Nil: "json_get k [] = None"
  by (simp add: json_get_def)

lemma json_get_opt_member:
  "json_get k (opt_member k' v @ ms) =
     (if k = k' then (case json_get k ms of None \<Rightarrow> v | Some j \<Rightarrow> Some j) else json_get k ms)"
  by (cases v) (auto simp: json_get_def opt_member_def map_add_def split: option.splits)

lemma json_get_opt_member_last:
  "json_get k (opt_member k' v) = (if k = k' then v else None)"
  using json_get_opt_member[of k k' v "[]"] by (simp add: json_get_Nil)

lemma keys_opt_member:
  "list_all P (map fst (opt_member k v @ ms)) \<longleftrightarrow> (v \<noteq> None \<longrightarrow> P k) \<and> list_all P (map fst ms)"
  "list_all P (map fst (opt_member k v)) \<longleftrightarrow> (v \<noteq> None \<longrightarrow> P k)"
  by (cases v; simp add: opt_member_def)+

lemma those_strings: "those (map (\<lambda>x. string_of_json (JString x)) xs) = Some xs"
  by (induction xs) (simp_all add: string_of_json_def)

lemma optional_string: "optional string_of_json (map_option JString x) = Some x"
  by (cases x) (simp_all add: optional_def string_of_json_def)

lemma optional_bucket: "optional bucket_of_json (map_option json_of_bucket x) = Some x"
  by (cases x) (simp_all add: optional_def bucket_of_json_def json_of_bucket_def those_strings o_def)

lemma room_of_json_of_room: "room_of_json (json_of_room r) = Some r"
proof -
  let ?ms = "opt_member ''id'' (Some (JString (room_id r))) @
        opt_member ''name'' (Some (JString (name r))) @
        opt_member ''icon'' (map_option JString (icon r)) @
        opt_member ''lights'' (map_option json_of_bucket (lights r)) @
        opt_member ''climate'' (map_option json_of_bucket (climate r)) @
        opt_member ''media'' (map_option json_of_bucket (media r)) @
        opt_member ''sensors'' (map_option json_of_bucket (sensors r)) @
        opt_member ''switches'' (map_option json_of_bucket (switches r))"
  have keys: "list_all (\<lambda>k. k \<in> set room_keys) (map fst ?ms)"
    by (simp only: keys_opt_member) (simp add: room_keys_def)
  have get: "json_get ''id'' ?ms = Some (JString (room_id r))"
    "json_get ''name'' ?ms = Some (JString (name r))"
    "json_get ''icon'' ?ms = map_option JString (icon r)"
    "json_get ''lights'' ?ms = map_option json_of_bucket (lights r)"
    "json_get ''climate'' ?ms = map_option json_of_bucket (climate r)"
    "json_get ''media'' ?ms = map_option json_of_bucket (media r)"
    "json_get ''sensors'' ?ms = map_option json_of_bucket (sensors r)"
    "json_get ''switches'' ?ms = map_option json_of_bucket (switches r)"
    by (simp_all add: json_get_opt_member json_get_opt_member_last)
  have "room_of_json (JObject ?ms) = Some r"
    unfolding room_of_json_def
    by (simp only: json.case keys get) (simp add: optional_string optional_bucket string_of_json_def)
  then show ?thesis
    by (simp add: json_of_room_def)
qed

lemma rooms_of_json_of_rooms: "rooms_of_json (JArray (map json_of_room rs)) = Some rs"
proof -
  have "those (map (\<lambda>r. room_of_json (json_of_room r)) rs) = Some rs"
    by (induction rs) (simp_all add: room_of_json_of_room)
  then show ?thesis by (simp add: rooms_of_json_def o_def)
qed

lemma no_number_room: "no_number (json_of_room r)"
  by (auto simp: json_of_room_def opt_member_def json_of_bucket_def list_all_iff
      split: option.splits)

lemma no_number_rooms: "no_number (JArray (map json_of_room rs))"
  by (simp add: list_all_iff no_number_room)

lemma JSON_parse_json_text: "JSON_parse (json_text rs) = Some rs"
  unfolding JSON_parse_def json_text_def
  by (simp only: json_parse_print[OF no_number_rooms] option.case rooms_of_json_of_rooms)

lemma json_text_nonempty: "json_text rs \<noteq> []"
  unfolding json_text_def by (rule print_json_nonempty[OF no_number_rooms])

text \<open>
  The writer and the reader on small inputs: the text of a room without entities; the
  empty list; a text with white space, a key given twice (the last value stays) and
  absent buckets; and a text cut off after its first member.
\<close>

lemma json_text_one_room:
  \<open>json_text [empty_room ''tuin'' ''Tuin'' None] =
     ''[{"id":"tuin","name":"Tuin","lights":[],"climate":[],"media":[],"sensors":[],"switches":[]}]''\<close>
  by code_simp

lemma JSON_parse_examples:
  \<open>JSON_parse ''[]'' = Some []\<close>
  \<open>JSON_parse '' [ { "id" : "a", "name":"b", "lights":["x"], "id":"c" } ] '' =
     Some [\<lparr>room_id = ''c'', name = ''b'', icon = None, lights = Some [''x''],
            climate = None, media = None, sensors = None, switches = None\<rparr>]\<close>
  \<open>JSON_parse ''[{"id":"a","name":"b"'' = None\<close>
  by code_simp+

section \<open>Facts shared by the proofs\<close>

lemma saveRoomConfig_Inr:
  "\<exists>d'. saveRoomConfig stringify d = Inr d' \<and> rooms d' = rooms d \<and>
     activeRoom d' = activeRoom d \<and> storage_key d' = storage_key d \<and>
     hass_obj d' = hass_obj d \<and> calls d' = calls d"
  by (simp add: saveRoomConfig_def split: sum.splits)

lemma empty_room_buckets: "room_get c (empty_room i n ic) = Some []"
  by (cases c) (simp_all add: empty_room_def)

lemma splice1_in_range:
  assumes "0 \<le> i" "i < int (length xs)"
  shows "splice1 i xs = take (nat i) xs @ drop (Suc (nat i)) xs"
    and "length (splice1 i xs) = length xs - 1"
  using assms by (auto simp: splice1_def Let_def min_def)

lemma default_blob_length:
  "length (json_text (getDefaultRooms Dist)) = 492"
  by code_simp

lemma garden_blob_length:
  "length (json_text garden_rooms) = 232"
  by code_simp

section \<open>The default configuration\<close>

text \<open>
  Claim C9, as amended. The default configuration of the dist file has exactly five
  rooms and that of \<^verbatim>\<open>part_000\<close> exactly three; in both files each of the five category
  buckets of every default room is the empty list.
\<close>

theorem default_rooms_count_and_buckets:
  "length (getDefaultRooms Dist) = 5 \<and> length (getDefaultRooms Part_000) = 3 \<and>
   (\<forall>b c. list_all (\<lambda>r. room_get c r = Some []) (getDefaultRooms b))"
proof -
  have "list_all (\<lambda>r. room_get c r = Some []) (getDefaultRooms b)" for b c
    by (cases b) (simp_all add: empty_room_buckets)
  then show ?thesis by simp
qed

text \<open>
  Claim C9 as stated asks for five rooms; \<^verbatim>\<open>getDefaultRooms\<close> of \<^verbatim>\<open>part_000\<close> returns
  woonkamer, slaapkamer and keuken only.
\<close>

theorem default_rooms_part_000_not_five:
  "length (getDefaultRooms Part_000) \<noteq> 5 \<and>
   map room_id (getDefaultRooms Part_000) = [''woonkamer'', ''slaapkamer'', ''keuken'']"
  by (simp add: empty_room_def)

section \<open>Saving\<close>

text \<open>
  Claim C5. \<^verbatim>\<open>saveRoomConfig\<close> always returns to its caller, and the room list, the
  active room and the storage key are as before. When the write throws, the only change
  is the logged error: the store and every field of the instance are as before.
\<close>

theorem saveRoomConfig_swallows_failure:
  "(\<exists>d'. saveRoomConfig stringify d = Inr d' \<and> rooms d' = rooms d \<and>
      activeRoom d' = activeRoom d \<and> storage_key d' = storage_key d) \<and>
   (\<forall>blob e. stringify (rooms d) = Inr blob \<and> setItem (store d) (storage_key d) blob = Inl e \<longrightarrow>
      saveRoomConfig stringify d = Inr (d\<lparr>console := console d @ [e]\<rparr>))"
  by (simp add: saveRoomConfig_def split: sum.splits)

text \<open>The default rooms of the dist file saved to a store whose quota is used up.\<close>

theorem saveRoomConfig_swallows_failure_witness:
  "setItem full_store ''glassmorphism_dashboard_rooms''
      (json_text (getDefaultRooms Dist)) = Inl QuotaExceededError \<and>
   saveRoomConfig JSON_stringify ((example_dashboard Dist)\<lparr>store := full_store\<rparr>) =
     Inr ((example_dashboard Dist)\<lparr>store := full_store, console := [QuotaExceededError]\<rparr>)"
proof -
  let ?d = "(example_dashboard Dist)\<lparr>store := full_store\<rparr>"
  let ?blob = "json_text (getDefaultRooms Dist)"
  have w: "setItem full_store ''glassmorphism_dashboard_rooms'' ?blob = Inl QuotaExceededError"
    by (simp add: setItem_def full_store_def json_text_def)
  have s: "JSON_stringify (rooms ?d) = Inr ?blob"
    by (simp add: JSON_stringify_def example_dashboard_def)
  have k: "storage_key ?d = ''glassmorphism_dashboard_rooms''" "store ?d = full_store"
    by (simp_all add: example_dashboard_def)
  have "stringify (rooms d) = Inr blob \<and> setItem (store d) (storage_key d) blob = Inl e \<Longrightarrow>
      saveRoomConfig stringify d = Inr (d\<lparr>console := console d @ [e]\<rparr>)"
    for stringify d blob e
    using saveRoomConfig_swallows_failure[of stringify d] by blast
  from this[of JSON_stringify ?d ?blob QuotaExceededError] s w k
  have "saveRoomConfig JSON_stringify ?d =
      Inr (?d\<lparr>console := console ?d @ [QuotaExceededError]\<rparr>)"
    by simp
  then show ?thesis using w by (simp add: example_dashboard_def)
qed

section \<open>Removing a room\<close>

text \<open>
  Claim C4. With at most one room \<^verbatim>\<open>removeRoom\<close> returns the state it was given. With
  more than one room and an index inside the list it returns a state whose room list
  is the old one without the room at the index, and whose active room is the old one
  unless that is past the end of the new list, in which case it is the new last index.
  So removing the last room while it is active leaves the new last room active.
\<close>

theorem removeRoom_guard_and_clamp:
  "(length (rooms d) \<le> 1 \<longrightarrow> removeRoom stringify i d = Inr d) \<and>
   (1 < length (rooms d) \<and> 0 \<le> i \<and> i < int (length (rooms d)) \<longrightarrow>
      (\<exists>d'. removeRoom stringify i d = Inr d' \<and>
        rooms d' = take (nat i) (rooms d) @ drop (Suc (nat i)) (rooms d) \<and>
        length (rooms d') = length (rooms d) - 1 \<and>
        activeRoom d' =
          (if length (rooms d') \<le> activeRoom d then length (rooms d') - 1 else activeRoom d) \<and>
        (nat i = activeRoom d \<and> activeRoom d = length (rooms d) - 1 \<longrightarrow>
           activeRoom d' = length (rooms d') - 1)))"
proof (intro conjI impI)
  assume "length (rooms d) \<le> 1"
  then show "removeRoom stringify i d = Inr d"
    by (simp add: removeRoom_def)
next
  assume a: "1 < length (rooms d) \<and> 0 \<le> i \<and> i < int (length (rooms d))"
  let ?rs = "splice1 i (rooms d)"
  let ?a = "if activeRoom d \<ge> length ?rs then length ?rs - 1 else activeRoom d"
  obtain d' where d': "saveRoomConfig stringify (d\<lparr>rooms := ?rs, activeRoom := ?a\<rparr>) = Inr d'"
    "rooms d' = ?rs" "activeRoom d' = ?a"
    using saveRoomConfig_Inr[of stringify "d\<lparr>rooms := ?rs, activeRoom := ?a\<rparr>"] by auto
  from a have r: "removeRoom stringify i d = Inr d'"
    using d'(1) by (simp add: removeRoom_def Let_def)
  from a have "0 \<le> i" "i < int (length (rooms d))" by simp_all
  then have s: "?rs = take (nat i) (rooms d) @ drop (Suc (nat i)) (rooms d)"
    "length ?rs = length (rooms d) - 1"
    by (rule splice1_in_range)+
  show "\<exists>d'. removeRoom stringify i d = Inr d' \<and>
        rooms d' = take (nat i) (rooms d) @ drop (Suc (nat i)) (rooms d) \<and>
        length (rooms d') = length (rooms d) - 1 \<and>
        activeRoom d' =
          (if length (rooms d') \<le> activeRoom d then length (rooms d') - 1 else activeRoom d) \<and>
        (nat i = activeRoom d \<and> activeRoom d = length (rooms d) - 1 \<longrightarrow>
           activeRoom d' = length (rooms d') - 1)"
    using r d'(2,3) s by (intro exI[of _ d']) auto
qed

text \<open>
  One room: nothing changes. Three rooms with the last one active, the last one removed:
  two rooms remain and index 1 is active.
\<close>

theorem removeRoom_guard_and_clamp_witness:
  "removeRoom JSON_stringify 0 one_room = Inr one_room \<and>
   (\<exists>d'. removeRoom JSON_stringify 2 ((example_dashboard Part_000)\<lparr>activeRoom := 2\<rparr>) = Inr d' \<and>
      map room_id (rooms d') = [''woonkamer'', ''slaapkamer''] \<and> activeRoom d' = 1)"
proof -
  let ?d = "(example_dashboard Part_000)\<lparr>activeRoom := 2\<rparr>"
  have "length (rooms one_room) \<le> 1"
    by (simp add: one_room_def)
  with removeRoom_guard_and_clamp[of one_room JSON_stringify 0]
  have 1: "removeRoom JSON_stringify 0 one_room = Inr one_room"
    by blast
  have "1 < length (rooms ?d) \<and> (0::int) \<le> 2 \<and> 2 < int (length (rooms ?d))"
    by (simp add: example_dashboard_def)
  with removeRoom_guard_and_clamp[of ?d JSON_stringify 2]
  obtain d' where d': "removeRoom JSON_stringify 2 ?d = Inr d'"
    "rooms d' = take (nat 2) (rooms ?d) @ drop (Suc (nat 2)) (rooms ?d)"
    "activeRoom d' =
          (if length (rooms d') \<le> activeRoom ?d then length (rooms d') - 1 else activeRoom ?d)"
    by blast
  from d'(2) have r: "map room_id (rooms d') = [''woonkamer'', ''slaapkamer'']"
    by (simp add: example_dashboard_def empty_room_def)
  from arg_cong[OF r, of length] have "length (rooms d') = 2"
    by simp
  with d'(3) have "activeRoom d' = 1" by simp
  with d'(1) r
  have "\<exists>d'. removeRoom JSON_stringify 2 ?d = Inr d' \<and>
      map room_id (rooms d') = [''woonkamer'', ''slaapkamer''] \<and> activeRoom d' = 1"
    by (intro exI[of _ d']) simp
  with 1 show ?thesis by (rule conjI)
qed

section \<open>Loading\<close>

text \<open>
  Claim C3, as amended. \<^verbatim>\<open>loadRoomConfig\<close> always returns to its caller. When the
  store has no blob under the key, or an empty one, the room list becomes the default
  list and \<^verbatim>\<open>saveRoomConfig\<close> runs at once on it, so that the default list is under the
  key whenever that write succeeds. When the blob does not parse, or reading the store
  throws, the room list becomes the default list and the error is logged; nothing is
  written, and the store is as before.
\<close>

theorem loadRoomConfig_defaults:
  "(\<exists>d'. loadRoomConfig b stringify parse d = Inr d') \<and>
   (getItem (store d) (storage_key d) = Inr None \<or>
    getItem (store d) (storage_key d) = Inr (Some []) \<longrightarrow>
      loadRoomConfig b stringify parse d =
        saveRoomConfig stringify (d\<lparr>rooms := getDefaultRooms b\<rparr>) \<and>
      (\<exists>d'. loadRoomConfig b stringify parse d = Inr d' \<and> rooms d' = getDefaultRooms b \<and>
         (\<forall>blob s. stringify (getDefaultRooms b) = Inr blob \<and>
            setItem (store d) (storage_key d) blob = Inr s \<longrightarrow>
            items (store d') (storage_key d) = Some blob))) \<and>
   (\<forall>blob. getItem (store d) (storage_key d) = Inr (Some blob) \<and> blob \<noteq> [] \<and>
      parse blob = None \<longrightarrow>
      loadRoomConfig b stringify parse d =
        Inr (d\<lparr>rooms := getDefaultRooms b, console := console d @ [SyntaxError]\<rparr>)) \<and>
   (\<forall>e. getItem (store d) (storage_key d) = Inl e \<longrightarrow>
      loadRoomConfig b stringify parse d =
        Inr (d\<lparr>rooms := getDefaultRooms b, console := console d @ [e]\<rparr>))"
proof (intro conjI impI allI)
  show "\<exists>d'. loadRoomConfig b stringify parse d = Inr d'"
    using saveRoomConfig_Inr[of stringify "d\<lparr>rooms := getDefaultRooms b\<rparr>"]
    by (auto simp: loadRoomConfig_def split: sum.splits option.splits)
next
  assume "getItem (store d) (storage_key d) = Inr None \<or>
    getItem (store d) (storage_key d) = Inr (Some [])"
  then show "loadRoomConfig b stringify parse d =
        saveRoomConfig stringify (d\<lparr>rooms := getDefaultRooms b\<rparr>)"
    by (auto simp: loadRoomConfig_def)
next
  assume a: "getItem (store d) (storage_key d) = Inr None \<or>
    getItem (store d) (storage_key d) = Inr (Some [])"
  then have l: "loadRoomConfig b stringify parse d =
        saveRoomConfig stringify (d\<lparr>rooms := getDefaultRooms b\<rparr>)"
    by (auto simp: loadRoomConfig_def)
  show "\<exists>d'. loadRoomConfig b stringify parse d = Inr d' \<and> rooms d' = getDefaultRooms b \<and>
         (\<forall>blob s. stringify (getDefaultRooms b) = Inr blob \<and>
            setItem (store d) (storage_key d) blob = Inr s \<longrightarrow>
            items (store d') (storage_key d) = Some blob)"
    unfolding l
    by (auto simp: saveRoomConfig_def setItem_def split: sum.splits if_splits)
next
  fix blob
  assume "getItem (store d) (storage_key d) = Inr (Some blob) \<and> blob \<noteq> [] \<and> parse blob = None"
  then show "loadRoomConfig b stringify parse d =
        Inr (d\<lparr>rooms := getDefaultRooms b, console := console d @ [SyntaxError]\<rparr>)"
    by (simp add: loadRoomConfig_def)
next
  fix e
  assume "getItem (store d) (storage_key d) = Inl e"
  then show "loadRoomConfig b stringify parse d =
        Inr (d\<lparr>rooms := getDefaultRooms b, console := console d @ [e]\<rparr>)"
    by (simp add: loadRoomConfig_def)
qed

text \<open>An empty store, a store with a blob that is not JSON, and a store that refuses access.\<close>

lemma oops_not_json: "JSON_parse ''{oops'' = None"
  by code_simp

theorem loadRoomConfig_defaults_witness:
  "(\<exists>d'. loadRoomConfig Dist JSON_stringify JSON_parse (fresh_dashboard example_store) = Inr d' \<and>
      rooms d' = getDefaultRooms Dist \<and>
      items (store d') ''glassmorphism_dashboard_rooms'' =
        Some (json_text (getDefaultRooms Dist))) \<and>
   loadRoomConfig Dist JSON_stringify JSON_parse (fresh_dashboard corrupt_store) =
     Inr ((fresh_dashboard corrupt_store)\<lparr>rooms := getDefaultRooms Dist, console := [SyntaxError]\<rparr>) \<and>
   loadRoomConfig Dist JSON_stringify JSON_parse (fresh_dashboard locked_store) =
     Inr ((fresh_dashboard locked_store)\<lparr>rooms := getDefaultRooms Dist, console := [SecurityError]\<rparr>)"
proof -
  let ?blob = "json_text (getDefaultRooms Dist)"
  note t = loadRoomConfig_defaults[of Dist JSON_stringify JSON_parse]
  let ?d1 = "fresh_dashboard example_store"
  have g1: "getItem (store ?d1) (storage_key ?d1) = Inr None"
    by (simp add: getItem_def fresh_dashboard_def example_store_def)
  have s1: "JSON_stringify (getDefaultRooms Dist) = Inr ?blob"
    by (simp add: JSON_stringify_def)
  have w1: "setItem (store ?d1) (storage_key ?d1) ?blob =
      Inr (example_store\<lparr>items := [''glassmorphism_dashboard_rooms'' \<mapsto> ?blob]\<rparr>)"
    by (simp add: setItem_def fresh_dashboard_def example_store_def default_blob_length
        del: getDefaultRooms.simps)
  from t[of ?d1] g1 obtain d' where d':
    "loadRoomConfig Dist JSON_stringify JSON_parse ?d1 = Inr d'"
    "rooms d' = getDefaultRooms Dist"
    "\<forall>blob s. JSON_stringify (getDefaultRooms Dist) = Inr blob \<and>
            setItem (store ?d1) (storage_key ?d1) blob = Inr s \<longrightarrow>
            items (store d') (storage_key ?d1) = Some blob"
    by blast
  from d'(3) s1 w1 have "items (store d') (storage_key ?d1) = Some ?blob"
    by blast
  then have i1: "items (store d') ''glassmorphism_dashboard_rooms'' = Some ?blob"
    by (simp add: fresh_dashboard_def)
  let ?d2 = "fresh_dashboard corrupt_store"
  have g2: "getItem (store ?d2) (storage_key ?d2) = Inr (Some ''{oops'') \<and> ''{oops'' \<noteq> [] \<and>
      JSON_parse ''{oops'' = None"
    by (simp add: getItem_def fresh_dashboard_def corrupt_store_def oops_not_json)
  with t[of ?d2] have 2: "loadRoomConfig Dist JSON_stringify JSON_parse ?d2 =
      Inr (?d2\<lparr>rooms := getDefaultRooms Dist, console := console ?d2 @ [SyntaxError]\<rparr>)"
    by blast
  let ?d3 = "fresh_dashboard locked_store"
  have g3: "getItem (store ?d3) (storage_key ?d3) = Inl SecurityError"
    by (simp add: getItem_def fresh_dashboard_def locked_store_def)
  with t[of ?d3] have 3: "loadRoomConfig Dist JSON_stringify JSON_parse ?d3 =
      Inr (?d3\<lparr>rooms := getDefaultRooms Dist, console := console ?d3 @ [SecurityError]\<rparr>)"
    by blast
  have c: "console ?d2 = []" "console ?d3 = []"
    by (simp_all add: fresh_dashboard_def)
  from d'(1,2) i1 2 3 show ?thesis
    unfolding c by auto
qed

text \<open>
  Claim C3 as stated has the default list persisted under the key also when the blob
  is malformed. Here the blob \<^verbatim>\<open>{oops\<close> does not parse; after \<^verbatim>\<open>loadRoomConfig\<close> the
  room list is the default list, and the store still holds \<^verbatim>\<open>{oops\<close> under the key,
  which is not the serialised default list.
\<close>

theorem loadRoomConfig_keeps_corrupt_blob:
  "JSON_parse ''{oops'' = None \<and>
   loadRoomConfig Dist JSON_stringify JSON_parse (fresh_dashboard corrupt_store) =
     Inr ((fresh_dashboard corrupt_store)\<lparr>rooms := getDefaultRooms Dist, console := [SyntaxError]\<rparr>) \<and>
   items (store ((fresh_dashboard corrupt_store)\<lparr>rooms := getDefaultRooms Dist, console := [SyntaxError]\<rparr>))
     ''glassmorphism_dashboard_rooms'' = Some ''{oops'' \<and>
   JSON_stringify (getDefaultRooms Dist) \<noteq> Inr ''{oops''"
  by (simp add: oops_not_json loadRoomConfig_def getItem_def fresh_dashboard_def corrupt_store_def
      JSON_stringify_def json_text_def)

text \<open>
  Saving and then loading, for any serialiser and parser: if the blob of the room list
  is not empty and parses back to the list, and the write succeeds, then
  \<^verbatim>\<open>loadRoomConfig\<close> on any instance \<open>d0\<close> with the same storage key and the store that
  the save left assigns the saved room list.
\<close>

lemma save_then_load_any_runtime:
  assumes "stringify (rooms d) = Inr blob" and "blob \<noteq> []" and "parse blob = Some (rooms d)"
    and "setItem (store d) (storage_key d) blob = Inr s"
  shows "saveRoomConfig stringify d = Inr (d\<lparr>store := s\<rparr>) \<and>
    loadRoomConfig b stringify parse (d0\<lparr>storage_key := storage_key d, store := s\<rparr>) =
      Inr (d0\<lparr>storage_key := storage_key d, store := s, rooms := rooms d\<rparr>)"
proof
  show "saveRoomConfig stringify d = Inr (d\<lparr>store := s\<rparr>)"
    using assms(1,4) by (simp add: saveRoomConfig_def)
  from assms(4) have "getItem s (storage_key d) = Inr (Some blob)"
    by (auto simp: setItem_def getItem_def split: if_splits)
  with assms(2,3)
  show "loadRoomConfig b stringify parse (d0\<lparr>storage_key := storage_key d, store := s\<rparr>) =
      Inr (d0\<lparr>storage_key := storage_key d, store := s, rooms := rooms d\<rparr>)"
    by (simp add: loadRoomConfig_def)
qed

lemma parse_default_blob:
  "JSON_parse (json_text (getDefaultRooms Dist)) = Some (getDefaultRooms Dist)"
  by (rule JSON_parse_json_text)

text \<open>
  Claim C2. For every room list: if the write of \<^verbatim>\<open>saveRoomConfig\<close> succeeds, leaving
  the store \<open>s\<close>, then \<^verbatim>\<open>loadRoomConfig\<close> on any instance \<open>d0\<close> with the same storage key
  and the store \<open>s\<close> assigns the very room list that was saved, and logs nothing. The
  serialiser and the parser are \<open>JSON_stringify\<close> and \<open>JSON_parse\<close>; that the text which
  is written parses back to the room list is part of what is proved, not assumed.
\<close>

theorem save_then_load_round_trip:
  assumes "setItem (store d) (storage_key d) (json_text (rooms d)) = Inr s"
  shows "saveRoomConfig JSON_stringify d = Inr (d\<lparr>store := s\<rparr>) \<and>
    getItem s (storage_key d) = Inr (Some (json_text (rooms d))) \<and>
    JSON_parse (json_text (rooms d)) = Some (rooms d) \<and>
    loadRoomConfig b JSON_stringify JSON_parse (d0\<lparr>storage_key := storage_key d, store := s\<rparr>) =
      Inr (d0\<lparr>storage_key := storage_key d, store := s, rooms := rooms d\<rparr>)"
proof -
  have 1: "JSON_stringify (rooms d) = Inr (json_text (rooms d))"
    by (simp add: JSON_stringify_def)
  from assms have 2: "getItem s (storage_key d) = Inr (Some (json_text (rooms d)))"
    by (auto simp: setItem_def getItem_def split: if_splits)
  from save_then_load_any_runtime[where stringify = JSON_stringify and parse = JSON_parse
      and b = b and ?d0.0 = d0, OF 1 json_text_nonempty JSON_parse_json_text assms] 2
  show ?thesis by (simp only: JSON_parse_json_text simp_thms)
qed

text \<open>
  The room list \<open>garden_rooms\<close>, saved by an instance and loaded into a fresh one that
  starts from an empty store object with the same key.
\<close>

theorem save_then_load_round_trip_witness:
  "saveRoomConfig JSON_stringify garden_dashboard =
     Inr (garden_dashboard\<lparr>store := example_store\<lparr>items :=
        [''glassmorphism_dashboard_rooms'' \<mapsto> json_text garden_rooms]\<rparr>\<rparr>) \<and>
   JSON_parse (json_text garden_rooms) = Some garden_rooms \<and>
   loadRoomConfig Dist JSON_stringify JSON_parse
     (fresh_dashboard (example_store\<lparr>items :=
        [''glassmorphism_dashboard_rooms'' \<mapsto> json_text garden_rooms]\<rparr>)) =
     Inr ((fresh_dashboard (example_store\<lparr>items :=
        [''glassmorphism_dashboard_rooms'' \<mapsto> json_text garden_rooms]\<rparr>))
          \<lparr>rooms := garden_rooms\<rparr>)"
proof -
  let ?blob = "json_text garden_rooms"
  let ?s = "example_store\<lparr>items := [''glassmorphism_dashboard_rooms'' \<mapsto> ?blob]\<rparr>"
  let ?d = "garden_dashboard"
  have r: "rooms ?d = garden_rooms" "storage_key ?d = ''glassmorphism_dashboard_rooms''"
    "store ?d = example_store"
    by (simp_all add: garden_dashboard_def example_dashboard_def)
  have 4: "setItem (store ?d) (storage_key ?d) (json_text (rooms ?d)) = Inr ?s"
    unfolding r by (simp add: setItem_def example_store_def garden_blob_length)
  have k: "fresh_dashboard example_store\<lparr>storage_key := ''glassmorphism_dashboard_rooms'',
      store := ?s\<rparr> = fresh_dashboard ?s"
    by (simp add: fresh_dashboard_def)
  from save_then_load_round_trip[where d = "?d" and s = "?s" and b = Dist
      and ?d0.0 = "fresh_dashboard example_store", OF 4]
  show ?thesis unfolding r k by simp
qed

section \<open>Facts about buckets\<close>

lemma room_get_set: "room_get c (room_set c b r) = Some b"
  by (cases c) simp_all

lemma bucket_update:
  "i < length (rooms d) \<Longrightarrow>
   bucket i c (d\<lparr>rooms := (rooms d)[i := room_set c b (rooms d ! i)]\<rparr>) = b"
  by (simp add: bucket_def room_get_set)

lemma bucket_rooms_cong: "rooms d' = rooms d \<Longrightarrow> bucket i c d' = bucket i c d"
  by (simp add: bucket_def)

lemma addEntityToRoom_bucket:
  assumes "activeRoom d < length (rooms d)"
  shows "\<exists>d'. addEntityToRoom s e c d = Inr d' \<and> activeRoom d' = activeRoom d \<and>
     length (rooms d') = length (rooms d) \<and>
     bucket (activeRoom d) c d' =
       (if e \<in> set (bucket (activeRoom d) c d) then bucket (activeRoom d) c d
        else bucket (activeRoom d) c d @ [e])"
proof -
  let ?a = "activeRoom d"
  let ?b = "bucket ?a c d"
  have b: "(case room_get c (rooms d ! ?a) of None \<Rightarrow> [] | Some xs \<Rightarrow> xs) = ?b"
    using assms by (simp add: bucket_def)
  show ?thesis
  proof (cases "e \<in> set ?b")
    case True
    let ?d' = "d\<lparr>rooms := (rooms d)[?a := room_set c ?b (rooms d ! ?a)]\<rparr>"
    have "addEntityToRoom s e c d = Inr ?d'"
      unfolding addEntityToRoom_def Let_def b using True assms by simp
    moreover have "bucket ?a c ?d' = ?b"
      using assms by (rule bucket_update)
    ultimately show ?thesis using True by simp
  next
    case False
    let ?d1 = "d\<lparr>rooms := (rooms d)[?a := room_set c (?b @ [e]) (rooms d ! ?a)]\<rparr>"
    have r: "addEntityToRoom s e c d = saveRoomConfig s ?d1"
      unfolding addEntityToRoom_def Let_def b using False assms by simp
    obtain d' where d': "saveRoomConfig s ?d1 = Inr d'" "rooms d' = rooms ?d1"
      "activeRoom d' = activeRoom ?d1"
      using saveRoomConfig_Inr[of s ?d1] by blast
    have "bucket ?a c ?d1 = ?b @ [e]"
      using assms by (rule bucket_update)
    with bucket_rooms_cong[OF d'(2), of ?a c] have "bucket ?a c d' = ?b @ [e]"
      by (rule trans)
    with r d' False show ?thesis by simp
  qed
qed

lemma removeEntityFromRoom_bucket:
  assumes "activeRoom d < length (rooms d)"
  shows "\<exists>d'. removeEntityFromRoom s e c d = Inr d' \<and> activeRoom d' = activeRoom d \<and>
     length (rooms d') = length (rooms d) \<and>
     bucket (activeRoom d) c d' = filter (\<lambda>i. i \<noteq> e) (bucket (activeRoom d) c d)"
proof (cases "room_get c (rooms d ! activeRoom d)")
  case None
  with assms show ?thesis
    by (simp add: removeEntityFromRoom_def bucket_def)
next
  case (Some b)
  let ?a = "activeRoom d"
  let ?d1 = "d\<lparr>rooms := (rooms d)[?a := room_set c (filter (\<lambda>i. i \<noteq> e) b) (rooms d ! ?a)]\<rparr>"
  from Some assms have r: "removeEntityFromRoom s e c d = saveRoomConfig s ?d1"
    by (simp add: removeEntityFromRoom_def)
  from Some assms have b: "bucket ?a c d = b"
    by (simp add: bucket_def)
  obtain d' where d': "saveRoomConfig s ?d1 = Inr d'" "rooms d' = rooms ?d1"
    "activeRoom d' = activeRoom ?d1"
    using saveRoomConfig_Inr[of s ?d1] by blast
  have "bucket ?a c ?d1 = filter (\<lambda>i. i \<noteq> e) b"
    using assms by (rule bucket_update)
  with bucket_rooms_cong[OF d'(2), of ?a c] have "bucket ?a c d' = filter (\<lambda>i. i \<noteq> e) b"
    by (rule trans)
  with r d' b show ?thesis by simp
qed

lemma run_ops_stamped:
  assumes "activeRoom d < length (rooms d)" and "bucket (activeRoom d) c d = map fst sb"
  shows "\<exists>d'. run_ops s c ops d = Inr d' \<and> activeRoom d' = activeRoom d \<and>
     length (rooms d') = length (rooms d) \<and>
     bucket (activeRoom d) c d' = map fst (stamp_ops t ops sb)"
  using assms
proof (induction ops arbitrary: d sb t)
  case Nil
  then show ?case by simp
next
  case (Cons x xs)
  show ?case
  proof (cases x)
    case (AddEntity e)
    let ?sb = "if e \<in> set (map fst sb) then sb else sb @ [(e, t)]"
    from addEntityToRoom_bucket[OF Cons.prems(1), of s e c] Cons.prems(2)
    obtain d1 where d1: "addEntityToRoom s e c d = Inr d1" "activeRoom d1 = activeRoom d"
      "length (rooms d1) = length (rooms d)" "bucket (activeRoom d) c d1 = map fst ?sb"
      by auto
    from d1 Cons.prems(1) have "activeRoom d1 < length (rooms d1)"
      "bucket (activeRoom d1) c d1 = map fst ?sb" by simp_all
    from Cons.IH[OF this, of "Suc t"] d1 AddEntity show ?thesis by simp
  next
    case (RemoveEntity e)
    let ?sb = "filter (\<lambda>p. fst p \<noteq> e) sb"
    have f: "filter (\<lambda>i. i \<noteq> e) (map fst sb) = map fst ?sb"
      by (simp add: filter_map comp_def)
    from removeEntityFromRoom_bucket[OF Cons.prems(1), of s e c] Cons.prems(2) f
    obtain d1 where d1: "removeEntityFromRoom s e c d = Inr d1" "activeRoom d1 = activeRoom d"
      "length (rooms d1) = length (rooms d)" "bucket (activeRoom d) c d1 = map fst ?sb"
      by auto
    from d1 Cons.prems(1) have "activeRoom d1 < length (rooms d1)"
      "bucket (activeRoom d1) c d1 = map fst ?sb" by simp_all
    from Cons.IH[OF this, of "Suc t"] d1 RemoveEntity show ?thesis by simp
  qed
qed

lemma stamp_ops_sorted:
  assumes "sorted_wrt (<) (map snd sb)" and "\<forall>p \<in> set sb. snd p < t"
  shows "sorted_wrt (<) (map snd (stamp_ops t ops sb)) \<and>
    (\<forall>p \<in> set (stamp_ops t ops sb). snd p < t + length ops)"
  using assms
proof (induction t ops sb rule: stamp_ops.induct)
  case (1 t sb)
  then show ?case by simp
next
  case (2 t e xs sb)
  let ?sb = "if e \<in> set (map fst sb) then sb else sb @ [(e, t)]"
  from 2(2,3) have "sorted_wrt (<) (map snd ?sb)" "\<forall>p \<in> set ?sb. snd p < Suc t"
    by (auto simp: sorted_wrt_append less_Suc_eq)
  from 2(1)[OF this] show ?case by simp
next
  case (3 t e xs sb)
  let ?sb = "filter (\<lambda>p. fst p \<noteq> e) sb"
  from 3(2) have "sorted_wrt (<) (map snd ?sb)"
    by (induction sb) auto
  moreover from 3(3) have "\<forall>p \<in> set ?sb. snd p < Suc t"
    by (auto simp: less_Suc_eq)
  ultimately show ?case using 3(1) by simp
qed

lemma stamp_ops_meaning:
  assumes "(x, u) \<in> set (stamp_ops t ops sb)"
  shows "((x, u) \<in> set sb \<or> (t \<le> u \<and> u < t + length ops \<and> ops ! (u - t) = AddEntity x)) \<and>
    (\<forall>j. j < length ops \<and> u < t + j \<longrightarrow> ops ! j \<noteq> RemoveEntity x)"
  using assms
proof (induction t ops sb rule: stamp_ops.induct)
  case (1 t sb)
  then show ?case by simp
next
  case (2 t e xs sb)
  let ?sb = "if e \<in> set (map fst sb) then sb else sb @ [(e, t)]"
  from 2 have ih: "((x, u) \<in> set ?sb \<or>
      (Suc t \<le> u \<and> u < Suc t + length xs \<and> xs ! (u - Suc t) = AddEntity x)) \<and>
    (\<forall>j. j < length xs \<and> u < Suc t + j \<longrightarrow> xs ! j \<noteq> RemoveEntity x)"
    by simp
  have a: "(x, u) \<in> set sb \<or>
      (t \<le> u \<and> u < t + length (AddEntity e # xs) \<and> (AddEntity e # xs) ! (u - t) = AddEntity x)"
  proof -
    from ih consider "(x, u) \<in> set ?sb"
      | "Suc t \<le> u" "u < Suc t + length xs" "xs ! (u - Suc t) = AddEntity x"
      by blast
    then show ?thesis
    proof cases
      case 1
      then show ?thesis by (auto split: if_splits)
    next
      case 2
      then have "u - t = Suc (u - Suc t)" by simp
      with 2 show ?thesis by simp
    qed
  qed
  have b: "\<forall>j. j < length (AddEntity e # xs) \<and> u < t + j \<longrightarrow>
      (AddEntity e # xs) ! j \<noteq> RemoveEntity x"
  proof (intro allI impI)
    fix j assume j: "j < length (AddEntity e # xs) \<and> u < t + j"
    show "(AddEntity e # xs) ! j \<noteq> RemoveEntity x"
    proof (cases j)
      case 0
      then show ?thesis by simp
    next
      case (Suc k)
      with j ih show ?thesis by simp
    qed
  qed
  from a b show ?case by blast
next
  case (3 t e xs sb)
  let ?sb = "filter (\<lambda>p. fst p \<noteq> e) sb"
  from 3 have ih: "((x, u) \<in> set ?sb \<or>
      (Suc t \<le> u \<and> u < Suc t + length xs \<and> xs ! (u - Suc t) = AddEntity x)) \<and>
    (\<forall>j. j < length xs \<and> u < Suc t + j \<longrightarrow> xs ! j \<noteq> RemoveEntity x)"
    by simp
  have a: "(x, u) \<in> set sb \<or>
      (t \<le> u \<and> u < t + length (RemoveEntity e # xs) \<and>
       (RemoveEntity e # xs) ! (u - t) = AddEntity x)"
  proof -
    from ih consider "(x, u) \<in> set ?sb"
      | "Suc t \<le> u" "u < Suc t + length xs" "xs ! (u - Suc t) = AddEntity x"
      by blast
    then show ?thesis
    proof cases
      case 1
      then show ?thesis by simp
    next
      case 2
      then have "u - t = Suc (u - Suc t)" by simp
      with 2 show ?thesis by simp
    qed
  qed
  have b: "\<forall>j. j < length (RemoveEntity e # xs) \<and> u < t + j \<longrightarrow>
      (RemoveEntity e # xs) ! j \<noteq> RemoveEntity x"
  proof (intro allI impI)
    fix j assume j: "j < length (RemoveEntity e # xs) \<and> u < t + j"
    show "(RemoveEntity e # xs) ! j \<noteq> RemoveEntity x"
    proof (cases j)
      case 0
      with j have "u < t" by simp
      with ih have "(x, u) \<in> set ?sb" by auto
      then have "x \<noteq> e" by simp
      with 0 show ?thesis by simp
    next
      case (Suc k)
      with j ih show ?thesis by simp
    qed
  qed
  from a b show ?case by blast
qed

lemma distinct_count_list_one: "distinct xs \<Longrightarrow> x \<in> set xs \<Longrightarrow> count_list xs x = 1"
  by (induction xs) (auto simp: count_list_0_iff)

lemma run_ops_distinct:
  assumes "activeRoom d < length (rooms d)" and "distinct (bucket (activeRoom d) c d)"
  shows "\<exists>d'. run_ops s c ops d = Inr d' \<and> activeRoom d' = activeRoom d \<and>
     length (rooms d') = length (rooms d) \<and> distinct (bucket (activeRoom d) c d')"
  using assms
proof (induction ops arbitrary: d)
  case Nil
  then show ?case by simp
next
  case (Cons x xs)
  have "\<exists>d1. apply_op s c x d = Inr d1 \<and> activeRoom d1 = activeRoom d \<and>
     length (rooms d1) = length (rooms d) \<and> distinct (bucket (activeRoom d) c d1)"
  proof (cases x)
    case (AddEntity e)
    with addEntityToRoom_bucket[OF Cons.prems(1), of s e c] Cons.prems(2)
    show ?thesis by (auto split: if_splits)
  next
    case (RemoveEntity e)
    with removeEntityFromRoom_bucket[OF Cons.prems(1), of s e c] Cons.prems(2)
    show ?thesis by auto
  qed
  then obtain d1 where d1: "apply_op s c x d = Inr d1" "activeRoom d1 = activeRoom d"
     "length (rooms d1) = length (rooms d)" "distinct (bucket (activeRoom d) c d1)"
    by blast
  with Cons.prems(1) have "activeRoom d1 < length (rooms d1)"
    "distinct (bucket (activeRoom d1) c d1)" by simp_all
  from Cons.IH[OF this] d1 show ?case by simp
qed

section \<open>Buckets as duplicate-free sequences in insertion order\<close>

text \<open>
  Claim C1. Take any state whose active room exists and any category whose bucket in
  that room has no identifier twice, as every bucket has that the program creates (the
  default rooms and the rooms of \<^verbatim>\<open>addRoom\<close> start with empty buckets). Every sequence of
  \<^verbatim>\<open>addEntityToRoom\<close> and \<^verbatim>\<open>removeEntityFromRoom\<close> calls on that bucket runs to its end
  without a throw and leaves a bucket with no identifier twice. In particular, after
  \<^verbatim>\<open>addEntityToRoom\<close> twice with the same identifier the bucket holds it exactly once.
\<close>

theorem bucket_never_has_duplicates:
  assumes "activeRoom d < length (rooms d)" and "distinct (bucket (activeRoom d) c d)"
  shows "(\<exists>d'. run_ops s c ops d = Inr d' \<and> activeRoom d' = activeRoom d \<and>
            distinct (bucket (activeRoom d) c d')) \<and>
         (\<exists>d1 d2. addEntityToRoom s e c d = Inr d1 \<and> addEntityToRoom s e c d1 = Inr d2 \<and>
            count_list (bucket (activeRoom d) c d2) e = 1)"
proof
  from run_ops_distinct[OF assms, of s ops]
  show "\<exists>d'. run_ops s c ops d = Inr d' \<and> activeRoom d' = activeRoom d \<and>
            distinct (bucket (activeRoom d) c d')"
    by blast
next
  let ?a = "activeRoom d"
  let ?b1 = "if e \<in> set (bucket ?a c d) then bucket ?a c d else bucket ?a c d @ [e]"
  from addEntityToRoom_bucket[OF assms(1), of s e c]
  obtain d1 where d1: "addEntityToRoom s e c d = Inr d1" "activeRoom d1 = ?a"
    "length (rooms d1) = length (rooms d)" "bucket ?a c d1 = ?b1"
    by blast
  from d1 assms(1) have "activeRoom d1 < length (rooms d1)" by simp
  from addEntityToRoom_bucket[OF this, of s e c] d1(2)
  obtain d2 where d2: "addEntityToRoom s e c d1 = Inr d2"
    "bucket ?a c d2 = (if e \<in> set (bucket ?a c d1) then bucket ?a c d1 else bucket ?a c d1 @ [e])"
    by auto
  have m: "e \<in> set ?b1" by simp
  have "distinct ?b1" using assms(2) by simp
  from distinct_count_list_one[OF this m] have "count_list ?b1 e = 1" .
  moreover from d2(2) d1(4) m have "bucket ?a c d2 = ?b1" by simp
  ultimately have "count_list (bucket ?a c d2) e = 1" by simp
  with d1(1) d2(1)
  show "\<exists>d1 d2. addEntityToRoom s e c d = Inr d1 \<and> addEntityToRoom s e c d1 = Inr d2 \<and>
            count_list (bucket (activeRoom d) c d2) e = 1"
    by blast
qed

text \<open>
  The default configuration of the dist file, \<^verbatim>\<open>light.kitchen\<close> added twice to the lights
  of room 0: the bucket is exactly that one identifier.
\<close>

lemma example_dashboard_bucket:
  "activeRoom (example_dashboard b) < length (rooms (example_dashboard b))"
  "bucket (activeRoom (example_dashboard b)) c (example_dashboard b) = []"
  by (cases b; simp add: example_dashboard_def bucket_def empty_room_buckets)+

theorem bucket_never_has_duplicates_witness:
  "(\<exists>d'. run_ops JSON_stringify Lights
        [AddEntity ''light.kitchen'', AddEntity ''light.kitchen''] (example_dashboard Dist) = Inr d' \<and>
      distinct (bucket 0 Lights d') \<and> bucket 0 Lights d' = [''light.kitchen'']) \<and>
   (\<exists>d1 d2. addEntityToRoom JSON_stringify ''light.kitchen'' Lights (example_dashboard Dist) = Inr d1 \<and>
      addEntityToRoom JSON_stringify ''light.kitchen'' Lights d1 = Inr d2 \<and>
      count_list (bucket 0 Lights d2) ''light.kitchen'' = 1)"
proof -
  let ?d = "example_dashboard Dist"
  let ?ops = "[AddEntity ''light.kitchen'', AddEntity ''light.kitchen'']"
  have a: "activeRoom ?d < length (rooms ?d)" by (rule example_dashboard_bucket)
  have e: "bucket (activeRoom ?d) Lights ?d = []" by (rule example_dashboard_bucket)
  then have h: "distinct (bucket (activeRoom ?d) Lights ?d)" by simp
  have z: "activeRoom ?d = 0" by (simp add: example_dashboard_def)
  note t = bucket_never_has_duplicates[OF a h, of JSON_stringify "?ops" "''light.kitchen''",
      unfolded z]
  from t obtain d' where d': "run_ops JSON_stringify Lights ?ops ?d = Inr d'"
    "distinct (bucket 0 Lights d')" by blast
  from e have "bucket (activeRoom ?d) Lights ?d = map fst ([] :: (string \<times> nat) list)" by simp
  from run_ops_stamped[OF a this, of JSON_stringify "?ops" 0] d'(1)
  have "bucket 0 Lights d' = [''light.kitchen'']" by (auto simp: z)
  with d' t show ?thesis by blast
qed

text \<open>
  Claim C10. In a state whose active room exists: \<^verbatim>\<open>addEntityToRoom\<close> with an identifier
  that the bucket does not hold puts it at the end of the bucket; \<^verbatim>\<open>removeEntityFromRoom\<close>
  leaves the other identifiers in the order they had; and after any sequence of the two
  on a bucket that starts empty, the bucket is the list of its members in the order of
  the steps that added them: each member carries the step of an \<^verbatim>\<open>addEntityToRoom\<close>
  call with its identifier after which no \<^verbatim>\<open>removeEntityFromRoom\<close> call with that
  identifier follows, and these steps increase along the bucket.
\<close>

theorem bucket_keeps_insertion_order:
  assumes "activeRoom d < length (rooms d)"
  shows "(e \<notin> set (bucket (activeRoom d) c d) \<longrightarrow>
           (\<exists>d'. addEntityToRoom s e c d = Inr d' \<and> activeRoom d' = activeRoom d \<and>
              bucket (activeRoom d) c d' = bucket (activeRoom d) c d @ [e])) \<and>
         (\<exists>d'. removeEntityFromRoom s e c d = Inr d' \<and> activeRoom d' = activeRoom d \<and>
            bucket (activeRoom d) c d' = filter (\<lambda>i. i \<noteq> e) (bucket (activeRoom d) c d) \<and>
            subseq (bucket (activeRoom d) c d') (bucket (activeRoom d) c d)) \<and>
         (bucket (activeRoom d) c d = [] \<longrightarrow>
           (\<exists>d'. run_ops s c ops d = Inr d' \<and> activeRoom d' = activeRoom d \<and>
              bucket (activeRoom d) c d' = map fst (stamp_ops 0 ops []) \<and>
              sorted_wrt (<) (map snd (stamp_ops 0 ops [])) \<and>
              (\<forall>(x, t) \<in> set (stamp_ops 0 ops []).
                 t < length ops \<and> ops ! t = AddEntity x \<and>
                 (\<forall>j. t < j \<and> j < length ops \<longrightarrow> ops ! j \<noteq> RemoveEntity x))))"
proof (intro conjI impI)
  assume "e \<notin> set (bucket (activeRoom d) c d)"
  with addEntityToRoom_bucket[OF assms, of s e c]
  show "\<exists>d'. addEntityToRoom s e c d = Inr d' \<and> activeRoom d' = activeRoom d \<and>
              bucket (activeRoom d) c d' = bucket (activeRoom d) c d @ [e]"
    by auto
next
  from removeEntityFromRoom_bucket[OF assms, of s e c]
  show "\<exists>d'. removeEntityFromRoom s e c d = Inr d' \<and> activeRoom d' = activeRoom d \<and>
            bucket (activeRoom d) c d' = filter (\<lambda>i. i \<noteq> e) (bucket (activeRoom d) c d) \<and>
            subseq (bucket (activeRoom d) c d') (bucket (activeRoom d) c d)"
    by auto
next
  assume "bucket (activeRoom d) c d = []"
  then have "bucket (activeRoom d) c d = map fst ([] :: (string \<times> nat) list)" by simp
  from run_ops_stamped[OF assms this, of s ops 0]
  obtain d' where d': "run_ops s c ops d = Inr d'" "activeRoom d' = activeRoom d"
    "bucket (activeRoom d) c d' = map fst (stamp_ops 0 ops [])"
    by blast
  have s: "sorted_wrt (<) (map snd (stamp_ops 0 ops []))"
    using stamp_ops_sorted[of "[]" 0 ops] by simp
  have m: "\<forall>(x, t) \<in> set (stamp_ops 0 ops []).
      t < length ops \<and> ops ! t = AddEntity x \<and>
      (\<forall>j. t < j \<and> j < length ops \<longrightarrow> ops ! j \<noteq> RemoveEntity x)"
  proof (clarify, intro conjI allI impI)
    fix x t assume p: "(x, t) \<in> set (stamp_ops 0 ops [])"
    from stamp_ops_meaning[OF p] show "t < length ops" "ops ! t = AddEntity x" by simp_all
    fix j assume "t < j \<and> j < length ops"
    with stamp_ops_meaning[OF p] show "ops ! j \<noteq> RemoveEntity x" by simp
  qed
  from d' s m
  show "\<exists>d'. run_ops s c ops d = Inr d' \<and> activeRoom d' = activeRoom d \<and>
              bucket (activeRoom d) c d' = map fst (stamp_ops 0 ops []) \<and>
              sorted_wrt (<) (map snd (stamp_ops 0 ops [])) \<and>
              (\<forall>(x, t) \<in> set (stamp_ops 0 ops []).
                 t < length ops \<and> ops ! t = AddEntity x \<and>
                 (\<forall>j. t < j \<and> j < length ops \<longrightarrow> ops ! j \<noteq> RemoveEntity x))"
    by blast
qed

text \<open>
  Six operations on the lights of room 0 of the default configuration: a, b added, a
  removed, c added, a added again, b added again (already there).
\<close>

theorem bucket_keeps_insertion_order_witness:
  "(\<exists>d'. addEntityToRoom JSON_stringify ''light.a'' Lights (example_dashboard Dist) = Inr d' \<and>
      bucket 0 Lights d' = [''light.a'']) \<and>
   (\<exists>d'. run_ops JSON_stringify Lights
        [AddEntity ''light.a'', AddEntity ''light.b'', RemoveEntity ''light.a'',
         AddEntity ''light.c'', AddEntity ''light.a'', AddEntity ''light.b'']
        (example_dashboard Dist) = Inr d' \<and>
      bucket 0 Lights d' = [''light.b'', ''light.c'', ''light.a''] \<and>
      stamp_ops 0 [AddEntity ''light.a'', AddEntity ''light.b'', RemoveEntity ''light.a'',
         AddEntity ''light.c'', AddEntity ''light.a'', AddEntity ''light.b''] [] =
        [(''light.b'', 1), (''light.c'', 3), (''light.a'', 4)])"
proof -
  let ?d = "example_dashboard Dist"
  let ?ops = "[AddEntity ''light.a'', AddEntity ''light.b'', RemoveEntity ''light.a'',
         AddEntity ''light.c'', AddEntity ''light.a'', AddEntity ''light.b'']"
  have a: "activeRoom ?d < length (rooms ?d)" by (rule example_dashboard_bucket)
  have e: "bucket (activeRoom ?d) Lights ?d = []" by (rule example_dashboard_bucket)
  have z: "activeRoom ?d = 0" by (simp add: example_dashboard_def)
  note e0 = e[unfolded z]
  note t = bucket_keeps_insertion_order[OF a, of "''light.a''" Lights JSON_stringify "?ops",
      unfolded z, unfolded e0]
  have st: "stamp_ops 0 ?ops [] = [(''light.b'', 1), (''light.c'', 3), (''light.a'', 4)]"
    by simp
  from t have 1: "\<exists>d'. addEntityToRoom JSON_stringify ''light.a'' Lights ?d = Inr d' \<and>
      bucket 0 Lights d' = [''light.a'']"
    by auto
  from t obtain d' where "run_ops JSON_stringify Lights ?ops ?d = Inr d'"
    "bucket 0 Lights d' = map fst (stamp_ops 0 ?ops [])"
    by blast
  with st have "\<exists>d'. run_ops JSON_stringify Lights ?ops ?d = Inr d' \<and>
      bucket 0 Lights d' = [''light.b'', ''light.c'', ''light.a''] \<and>
      stamp_ops 0 ?ops [] = [(''light.b'', 1), (''light.c'', 3), (''light.a'', 4)]"
    by (intro exI[of _ d']) simp
  with 1 show ?thesis by (rule conjI)
qed

section \<open>Adding a room\<close>

lemma collapse_runs_True:
  "collapse_runs True cs = collapse_runs False (dropWhile is_space cs)"
  by (induction cs) simp_all

lemma replace_spaces_collapse: "replace_spaces cs = collapse_runs False cs"
  by (induction cs rule: replace_spaces.induct) (simp_all add: collapse_runs_True)

lemma slug_eq_spec: "slug nm = slug_spec nm"
  by (simp add: slug_def slug_spec_def strip_non_slug_def toLowerCase_def replace_spaces_collapse)

lemma is_slug_char_class:
  "is_slug_char c \<longleftrightarrow> c \<in> set ''abcdefghijklmnopqrstuvwxyz0123456789_''"
proof -
  let ?n = "of_char c :: nat"
  have codes: "map of_char ''abcdefghijklmnopqrstuvwxyz0123456789_'' =
      [97..<123] @ [48..<58] @ [95 :: nat]"
    by simp
  have "c \<in> set ''abcdefghijklmnopqrstuvwxyz0123456789_'' \<longleftrightarrow>
      ?n \<in> of_char ` set ''abcdefghijklmnopqrstuvwxyz0123456789_''"
    by (simp only: inj_image_mem_iff[OF inj_of_char])
  also have "\<dots> \<longleftrightarrow> ?n \<in> set ([97..<123] @ [48..<58] @ [95])"
    by (simp only: codes[symmetric] set_map)
  also have "\<dots> \<longleftrightarrow> (97 \<le> ?n \<and> ?n \<le> 122) \<or> (48 \<le> ?n \<and> ?n \<le> 57) \<or> ?n = 95"
    by (simp only: set_append set_upt) auto
  finally show ?thesis by (simp add: is_slug_char_def Let_def)
qed

text \<open>
  Claim C6. For every name, \<^verbatim>\<open>addRoom\<close> returns a state whose room list is the old one
  followed by one new room; the new room has the given display name, five empty
  buckets and the identifier \<open>slug nm\<close>, and it is the active room. The identifier is
  what the specification describes (the name in lower case, each run of white space
  turned into one underscore, every character outside \<^verbatim>\<open>[a-z0-9_]\<close> removed), so all
  its characters are in that class; for \<^verbatim>\<open>Garden Room!\<close> it is \<^verbatim>\<open>garden_room\<close>.
\<close>

theorem addRoom_slug_and_append:
  "\<exists>d'. addRoom b stringify nm d = Inr d' \<and>
     rooms d' = rooms d @
       [empty_room (slug nm) nm (case b of Part_000 \<Rightarrow> Some ''mdi:home'' | Dist \<Rightarrow> None)] \<and>
     room_id (last (rooms d')) = slug nm \<and> name (last (rooms d')) = nm \<and>
     (\<forall>c. room_get c (last (rooms d')) = Some []) \<and>
     activeRoom d' = length (rooms d') - 1 \<and> activeRoom d' = length (rooms d) \<and>
     slug nm = slug_spec nm \<and>
     list_all (\<lambda>c. c \<in> set ''abcdefghijklmnopqrstuvwxyz0123456789_'') (slug nm) \<and>
     slug ''Garden Room!'' = ''garden_room''"
proof -
  let ?r = "empty_room (slug nm) nm (case b of Part_000 \<Rightarrow> Some ''mdi:home'' | Dist \<Rightarrow> None)"
  let ?d1 = "d\<lparr>rooms := rooms d @ [?r]\<rparr>"
  obtain d2 where d2: "saveRoomConfig stringify ?d1 = Inr d2" "rooms d2 = rooms ?d1"
    using saveRoomConfig_Inr[of stringify ?d1] by blast
  let ?d' = "d2\<lparr>activeRoom := length (rooms d2) - 1\<rparr>"
  from d2 have a: "addRoom b stringify nm d = Inr ?d'"
    by (simp add: addRoom_def Let_def)
  from d2(2) have r: "rooms ?d' = rooms d @ [?r]" by simp
  have f: "room_id ?r = slug nm" "name ?r = nm" "\<forall>c. room_get c ?r = Some []"
    by (simp_all add: empty_room_buckets) (simp_all add: empty_room_def)
  have "\<forall>c \<in> set (slug nm). is_slug_char c"
    by (simp add: slug_def strip_non_slug_def)
  then have "\<forall>c \<in> set (slug nm). c \<in> set ''abcdefghijklmnopqrstuvwxyz0123456789_''"
    unfolding is_slug_char_class .
  then have cl: "list_all (\<lambda>c. c \<in> set ''abcdefghijklmnopqrstuvwxyz0123456789_'') (slug nm)"
    by (simp only: list_all_iff)
  have g: "slug ''Garden Room!'' = ''garden_room''"
    by code_simp
  from a r f cl g slug_eq_spec[of nm] show ?thesis
    by (intro exI[of _ ?d']) simp
qed

text \<open>\<^verbatim>\<open>addRoom("Garden Room!")\<close> on the default configuration of the dist file.\<close>

theorem addRoom_slug_and_append_witness:
  "\<exists>d'. addRoom Dist JSON_stringify ''Garden Room!'' (example_dashboard Dist) = Inr d' \<and>
     map room_id (rooms d') =
       [''woonkamer'', ''slaapkamer'', ''keuken'', ''kantoor'', ''zolder'', ''garden_room''] \<and>
     name (last (rooms d')) = ''Garden Room!'' \<and> activeRoom d' = 5"
proof -
  from addRoom_slug_and_append[of Dist JSON_stringify "''Garden Room!''" "example_dashboard Dist",
      unfolded build.case]
  obtain d' where d': "addRoom Dist JSON_stringify ''Garden Room!'' (example_dashboard Dist) = Inr d'"
    "rooms d' = rooms (example_dashboard Dist) @
       [empty_room (slug ''Garden Room!'') ''Garden Room!'' None]"
    "name (last (rooms d')) = ''Garden Room!''"
    "activeRoom d' = length (rooms (example_dashboard Dist))"
    "slug ''Garden Room!'' = ''garden_room''"
    by blast
  from d'(2) have "rooms d' = rooms (example_dashboard Dist) @
       [empty_room ''garden_room'' ''Garden Room!'' None]"
    unfolding d'(5) .
  then have m: "map room_id (rooms d') =
       [''woonkamer'', ''slaapkamer'', ''keuken'', ''kantoor'', ''zolder'', ''garden_room'']"
    by (simp add: example_dashboard_def empty_room_def)
  from d'(4) have a: "activeRoom d' = 5"
    by (simp add: example_dashboard_def)
  show ?thesis
    by (rule exI[of _ d']) (rule conjI d'(1) m d'(3) a)+
qed

section \<open>Toggling a device\<close>

text \<open>
  Claim C7. \<^verbatim>\<open>toggleEntity\<close> on an identifier without a state in the live state source
  changes nothing and calls no service. With a state: if the part of the identifier
  before its first dot is \<^verbatim>\<open>climate\<close>, the one call made is \<^verbatim>\<open>climate.set_hvac_mode\<close> with
  mode \<^verbatim>\<open>heat_cool\<close> when the reported state is \<^verbatim>\<open>off\<close> and with mode \<^verbatim>\<open>off\<close>
  otherwise; for every other domain the one call made is \<^verbatim>\<open>homeassistant.toggle\<close>.
\<close>

theorem toggleEntity_dispatch:
  "(getState d e = None \<longrightarrow> toggleEntity e d = d) \<and>
   (\<forall>st. getState d e = Some st \<and> takeWhile (\<lambda>c. c \<noteq> CHR ''.'') e = ''climate'' \<and>
      state st = ''off'' \<longrightarrow>
      toggleEntity e d = d\<lparr>calls := calls d @
        [\<lparr>sc_domain = ''climate'', sc_service = ''set_hvac_mode'',
          sc_data = [(''entity_id'', Str e), (''hvac_mode'', Str ''heat_cool'')]\<rparr>]\<rparr>) \<and>
   (\<forall>st. getState d e = Some st \<and> takeWhile (\<lambda>c. c \<noteq> CHR ''.'') e = ''climate'' \<and>
      state st \<noteq> ''off'' \<longrightarrow>
      toggleEntity e d = d\<lparr>calls := calls d @
        [\<lparr>sc_domain = ''climate'', sc_service = ''set_hvac_mode'',
          sc_data = [(''entity_id'', Str e), (''hvac_mode'', Str ''off'')]\<rparr>]\<rparr>) \<and>
   (\<forall>st. getState d e = Some st \<and> takeWhile (\<lambda>c. c \<noteq> CHR ''.'') e \<noteq> ''climate'' \<longrightarrow>
      toggleEntity e d = d\<lparr>calls := calls d @
        [\<lparr>sc_domain = ''homeassistant'', sc_service = ''toggle'',
          sc_data = [(''entity_id'', Str e)]\<rparr>]\<rparr>)"
proof -
  have h: "hass_obj d \<noteq> None" if "getState d e = Some st" for st
    using that by (auto simp: getState_def split: option.splits)
  show ?thesis
    by (auto simp: toggleEntity_def callService_def Let_def dest!: h)
qed

text \<open>
  The four cases on the example state source: a climate device that is off, one that
  heats, a light, and an identifier the source does not know.
\<close>

lemma example_getState:
  "getState (example_dashboard b) ''climate.woonkamer'' =
     Some (example_entity ''climate.woonkamer'' ''off'' (Some 21))"
  "getState (example_dashboard b) ''climate.slaapkamer'' =
     Some (example_entity ''climate.slaapkamer'' ''heat'' None)"
  "getState (example_dashboard b) ''climate.vriezer'' =
     Some (example_entity ''climate.vriezer'' ''cool'' (Some 0))"
  "getState (example_dashboard b) ''light.keuken'' =
     Some (example_entity ''light.keuken'' ''on'' None)"
  "getState (example_dashboard b) ''light.zolder'' = None"
  by (simp_all add: getState_def example_dashboard_def example_hass_def)

theorem toggleEntity_dispatch_witness:
  "calls (toggleEntity ''climate.woonkamer'' (example_dashboard Dist)) =
     [\<lparr>sc_domain = ''climate'', sc_service = ''set_hvac_mode'',
       sc_data = [(''entity_id'', Str ''climate.woonkamer''), (''hvac_mode'', Str ''heat_cool'')]\<rparr>] \<and>
   calls (toggleEntity ''climate.slaapkamer'' (example_dashboard Dist)) =
     [\<lparr>sc_domain = ''climate'', sc_service = ''set_hvac_mode'',
       sc_data = [(''entity_id'', Str ''climate.slaapkamer''), (''hvac_mode'', Str ''off'')]\<rparr>] \<and>
   calls (toggleEntity ''light.keuken'' (example_dashboard Dist)) =
     [\<lparr>sc_domain = ''homeassistant'', sc_service = ''toggle'',
       sc_data = [(''entity_id'', Str ''light.keuken'')]\<rparr>] \<and>
   toggleEntity ''light.zolder'' (example_dashboard Dist) = example_dashboard Dist"
proof -
  let ?d = "example_dashboard Dist"
  have c: "calls ?d = []" by (simp add: example_dashboard_def)
  have "getState ?d ''climate.woonkamer'' =
      Some (example_entity ''climate.woonkamer'' ''off'' (Some 21)) \<and>
    takeWhile (\<lambda>c. c \<noteq> CHR ''.'') ''climate.woonkamer'' = ''climate'' \<and>
    state (example_entity ''climate.woonkamer'' ''off'' (Some 21)) = ''off''"
    by (simp add: example_getState example_entity_def)
  with toggleEntity_dispatch[of ?d "''climate.woonkamer''"]
  have "toggleEntity ''climate.woonkamer'' ?d = ?d\<lparr>calls := calls ?d @
        [\<lparr>sc_domain = ''climate'', sc_service = ''set_hvac_mode'',
          sc_data = [(''entity_id'', Str ''climate.woonkamer''), (''hvac_mode'', Str ''heat_cool'')]\<rparr>]\<rparr>"
    by blast
  then have 1: "calls (toggleEntity ''climate.woonkamer'' ?d) =
     [\<lparr>sc_domain = ''climate'', sc_service = ''set_hvac_mode'',
       sc_data = [(''entity_id'', Str ''climate.woonkamer''), (''hvac_mode'', Str ''heat_cool'')]\<rparr>]"
    by (simp add: c)
  have "getState ?d ''climate.slaapkamer'' =
      Some (example_entity ''climate.slaapkamer'' ''heat'' None) \<and>
    takeWhile (\<lambda>c. c \<noteq> CHR ''.'') ''climate.slaapkamer'' = ''climate'' \<and>
    state (example_entity ''climate.slaapkamer'' ''heat'' None) \<noteq> ''off''"
    by (simp add: example_getState example_entity_def)
  with toggleEntity_dispatch[of ?d "''climate.slaapkamer''"]
  have "toggleEntity ''climate.slaapkamer'' ?d = ?d\<lparr>calls := calls ?d @
        [\<lparr>sc_domain = ''climate'', sc_service = ''set_hvac_mode'',
          sc_data = [(''entity_id'', Str ''climate.slaapkamer''), (''hvac_mode'', Str ''off'')]\<rparr>]\<rparr>"
    by blast
  then have 2: "calls (toggleEntity ''climate.slaapkamer'' ?d) =
     [\<lparr>sc_domain = ''climate'', sc_service = ''set_hvac_mode'',
       sc_data = [(''entity_id'', Str ''climate.slaapkamer''), (''hvac_mode'', Str ''off'')]\<rparr>]"
    by (simp add: c)
  have "getState ?d ''light.keuken'' = Some (example_entity ''light.keuken'' ''on'' None) \<and>
    takeWhile (\<lambda>c. c \<noteq> CHR ''.'') ''light.keuken'' \<noteq> ''climate''"
    by (simp add: example_getState)
  with toggleEntity_dispatch[of ?d "''light.keuken''"]
  have "toggleEntity ''light.keuken'' ?d = ?d\<lparr>calls := calls ?d @
        [\<lparr>sc_domain = ''homeassistant'', sc_service = ''toggle'',
          sc_data = [(''entity_id'', Str ''light.keuken'')]\<rparr>]\<rparr>"
    by blast
  then have 3: "calls (toggleEntity ''light.keuken'' ?d) =
     [\<lparr>sc_domain = ''homeassistant'', sc_service = ''toggle'',
       sc_data = [(''entity_id'', Str ''light.keuken'')]\<rparr>]"
    by (simp add: c)
  have "getState ?d ''light.zolder'' = None" by (rule example_getState)
  with toggleEntity_dispatch[of ?d "''light.zolder''"]
  have 4: "toggleEntity ''light.zolder'' ?d = ?d" by blast
  show ?thesis by (rule conjI 1 2 3 4)+
qed

section \<open>The temperature buttons\<close>

text \<open>
  A click on a temperature button calls \<^verbatim>\<open>climate.set_temperature\<close> with the number in
  the button. Without a reported target the two buttons hold 19.5 and 20.5. For a
  reported target that is a multiple of one half other than 0, the two buttons hold the
  target minus and plus one half: on such numbers (up to the size at which binary64 still
  holds every half) the sum that JavaScript computes is the sum of the reals, which is
  what \<open>renderClimateDevice\<close> is defined with. For other targets JavaScript rounds the
  sum to binary64, which the definition does not do, and nothing is stated of them. For
  the target 21 the plus button holds 21.5.
\<close>

lemma temp_btn_click_calls:
  assumes "hass_obj d \<noteq> None"
  shows "temp_btn_click btn d = d\<lparr>calls := calls d @
      [\<lparr>sc_domain = ''climate'', sc_service = ''set_temperature'',
        sc_data = [(''entity_id'', Str (data_temp_entity btn)), (''temperature'', Num (data_temp btn))]\<rparr>]\<rparr>"
  using assms by (auto simp: temp_btn_click_def setTemperature_def callService_def)

lemma temp_buttons_step_half:
  "temperature (attributes e) = Some (of_int k / 2) \<and> k \<noteq> 0 \<longrightarrow>
     data_temp (fst (renderClimateDevice e)) = of_int (k - 1) / 2 \<and>
     data_temp (snd (renderClimateDevice e)) = of_int (k + 1) / 2"
  "temperature (attributes e) = None \<longrightarrow>
     data_temp (fst (renderClimateDevice e)) = 19.5 \<and>
     data_temp (snd (renderClimateDevice e)) = 20.5"
  "data_temp (snd (renderClimateDevice (example_entity i s (Some 21)))) = 21.5"
  by (simp_all add: renderClimateDevice_def targetTemp_def example_entity_def field_simps)

text \<open>
  Claim C8. The claim has every press issue the reported target plus or minus 0.5, with
  20 standing in only for a target that is not set. For a climate device that reports
  the target 0, \<^verbatim>\<open>entity.attributes.temperature || 20\<close> is 20: the plus button issues 20.5
  and the minus button 19.5, not 0.5 and -0.5.
\<close>

theorem temp_plus_button_at_zero_target:
  "getState (example_dashboard Dist) ''climate.vriezer'' =
     Some (example_entity ''climate.vriezer'' ''cool'' (Some 0)) \<and>
   calls (temp_btn_click
            (snd (renderClimateDevice (example_entity ''climate.vriezer'' ''cool'' (Some 0))))
            (example_dashboard Dist)) =
     [\<lparr>sc_domain = ''climate'', sc_service = ''set_temperature'',
       sc_data = [(''entity_id'', Str ''climate.vriezer''), (''temperature'', Num 20.5)]\<rparr>] \<and>
   calls (temp_btn_click
            (fst (renderClimateDevice (example_entity ''climate.vriezer'' ''cool'' (Some 0))))
            (example_dashboard Dist)) =
     [\<lparr>sc_domain = ''climate'', sc_service = ''set_temperature'',
       sc_data = [(''entity_id'', Str ''climate.vriezer''), (''temperature'', Num 19.5)]\<rparr>] \<and>
   (20.5 :: real) \<noteq> 0 + 0.5 \<and> (19.5 :: real) \<noteq> 0 - 0.5"
proof -
  have h: "hass_obj (example_dashboard Dist) \<noteq> None" "calls (example_dashboard Dist) = []"
    by (simp_all add: example_dashboard_def)
  show ?thesis
    by (simp add: example_getState temp_btn_click_calls[OF h(1)] h(2) renderClimateDevice_def
        targetTemp_def example_entity_def)
qed

end
